theory Spec2Isabelle
  imports Main
begin

section \<open>Map-unit diffing and merging (bcml/mergers/mubin.py)\<close>

text \<open>
  A shallow embedding of the map merger: \<open>get_stock_map\<close>, \<open>get_map_diff\<close>,
  \<open>merge_map\<close>, \<open>get_dungeonstatic_diff\<close> and the \<open>MapMerger\<close> methods
  \<open>consolidate_diffs\<close> and \<open>perform_merge\<close>, with the helpers of \<open>bcml/util.py\<close>
  they call. Python exceptions are values of \<open>error\<close>; a function that may raise returns
  \<open>error + 'a\<close>. Calls to \<open>print\<close> and \<open>util.vprint\<close> write to the console only and
  are left out.
\<close>

subsection \<open>Data model\<close>

datatype error = FileNotFoundError | TypeError | ValueError | KeyError

text \<open>Python \<open>bytes\<close> and \<open>str\<close> are both character lists; paths are strings with
  \<open>/\<close> between their parts.\<close>

type_synonym bytes = string
type_synonym path = string

text \<open>\<open>Map = namedtuple('Map', 'section type')\<close>: a pair, compared as a tuple. Its fields
  \<open>section\<close> and \<open>type\<close> are \<open>Map_section\<close> and \<open>Map_type\<close>.\<close>

type_synonym Map = "string \<times> string"

definition Map_section :: "Map \<Rightarrow> string" where
  "Map_section map_unit = fst map_unit"

definition Map_type :: "Map \<Rightarrow> string" where
  "Map_type map_unit = snd map_unit"

text \<open>
  A parsed BYML map unit is a dictionary with an \<open>Objs\<close> list of actor dictionaries. The
  keys the merger reads are record fields: \<open>HashId\<close>, \<open>UnitConfigName\<close>, the optional
  \<open>LinksToObj\<close> list (\<open>None\<close> when the key is absent) and \<open>DestUnitHashId\<close> of a link.
  Every other key is kept in a field of type \<open>'v\<close>, which the merger never inspects and only
  compares for equality. The record types stand for dictionaries in which \<open>HashId\<close>,
  \<open>UnitConfigName\<close> and \<open>DestUnitHashId\<close> are present and \<open>HashId\<close> is an integer.
\<close>

record 'v link =
  DestUnitHashId :: int
  link_rest :: 'v

record 'v actor =
  HashId :: int
  UnitConfigName :: string
  LinksToObj :: "'v link list option"
  actor_rest :: 'v

record 'v document =
  Objs :: "'v actor list"
  document_rest :: 'v

text \<open>
  The diff dictionary \<open>{'add': [...], 'mod': {...}, 'del': [...]}\<close>. The key \<open>'mod'\<close> is
  the field \<open>mod_entries\<close> (\<open>mod\<close> is an operator of HOL). A Python \<open>dict\<close> keeps its
  keys in insertion order, so \<open>mod_entries\<close> is an association list.
\<close>

record 'v diff =
  add :: "'v actor list"
  mod_entries :: "(int \<times> 'v actor) list"
  del :: "int list"

subsection \<open>Python dictionaries and strings\<close>

text \<open>\<open>d[k] = v\<close>: an existing key keeps its position, a new key goes last.\<close>

fun dict_set :: "'k \<Rightarrow> 'a \<Rightarrow> ('k \<times> 'a) list \<Rightarrow> ('k \<times> 'a) list" where
  "dict_set k v [] = [(k, v)]"
| "dict_set k v ((k', v') # kvs) =
     (if k = k' then (k, v) # kvs else (k', v') # dict_set k v kvs)"

text \<open>\<open>d[k]\<close>, raising \<open>KeyError\<close> for a missing key.\<close>

definition dict_get :: "('k \<times> 'a) list \<Rightarrow> 'k \<Rightarrow> error + 'a" where
  "dict_get d k = (case map_of d k of None \<Rightarrow> Inl KeyError | Some v \<Rightarrow> Inr v)"

text \<open>\<open>xs.index(x)\<close>: the first position of \<open>x\<close>; \<open>None\<close> stands for \<open>ValueError\<close>.\<close>

fun index :: "'a list \<Rightarrow> 'a \<Rightarrow> nat option" where
  "index [] x = None"
| "index (y # ys) x =
     (if y = x then Some 0 else (case index ys x of None \<Rightarrow> None | Some i \<Rightarrow> Some (Suc i)))"

text \<open>\<open>s.split(c)\<close> for a one-character separator.\<close>

fun split :: "char \<Rightarrow> string \<Rightarrow> string list" where
  "split c [] = [[]]"
| "split c (x # xs) =
     (if x = c then [] # split c xs
      else (case split c xs of [] \<Rightarrow> [[x]] | p # ps \<Rightarrow> (x # p) # ps))"

text \<open>\<open>s.startswith(p)\<close> and \<open>p in s\<close> for strings.\<close>

fun startswith :: "string \<Rightarrow> string \<Rightarrow> bool" where
  "startswith s [] = True"
| "startswith [] (p # ps) = False"
| "startswith (c # cs) (p # ps) = (c = p \<and> startswith cs ps)"

fun str_in :: "string \<Rightarrow> string \<Rightarrow> bool" where
  "str_in p [] = (p = [])"
| "str_in p (c # cs) = (startswith (c # cs) p \<or> str_in p cs)"

subsection \<open>\<open>MapMerger.consolidate_diffs\<close>\<close>

text \<open>
  \<open>a_map not in diffs\<close> looks the \<open>Map\<close> tuple up in \<open>diffs\<close>, the list of the mods'
  log dictionaries. Python compares the tuple with each dictionary of the list, and a tuple
  never equals a dictionary.
\<close>

definition Map_eq_dict :: "Map \<Rightarrow> (string \<times> 'v diff) list \<Rightarrow> bool" where
  "Map_eq_dict a_map mod_diff = False"

definition Map_in :: "Map \<Rightarrow> (string \<times> 'v diff) list list \<Rightarrow> bool" where
  "Map_in a_map diffs = list_ex (Map_eq_dict a_map) diffs"

text \<open>\<open>Map(*file.split('_'))\<close>: a \<open>TypeError\<close> unless there are exactly two parts.\<close>

definition make_Map :: "string list \<Rightarrow> error + Map" where
  "make_Map parts = (case parts of [s, t] \<Rightarrow> Inr (s, t) | _ \<Rightarrow> Inl TypeError)"

text \<open>The body of the inner loop \<open>for file, diff in mod_diff.items()\<close>.\<close>

definition group_file ::
  "(string \<times> 'v diff) list list \<Rightarrow> (Map \<times> 'v diff list) list \<Rightarrow> string \<times> 'v diff
     \<Rightarrow> error + (Map \<times> 'v diff list) list" where
  "group_file diffs a_diffs item =
     (case make_Map (split CHR ''_'' (fst item)) of
        Inl e \<Rightarrow> Inl e
      | Inr a_map \<Rightarrow>
          (let a_diffs1 = (if \<not> Map_in a_map diffs then dict_set a_map [] a_diffs else a_diffs)
           in case dict_get a_diffs1 a_map of
                Inl e \<Rightarrow> Inl e
              | Inr mods \<Rightarrow> Inr (dict_set a_map (mods @ [snd item]) a_diffs1)))"

fun group_items ::
  "(string \<times> 'v diff) list list \<Rightarrow> (Map \<times> 'v diff list) list \<Rightarrow> (string \<times> 'v diff) list
     \<Rightarrow> error + (Map \<times> 'v diff list) list" where
  "group_items diffs a_diffs [] = Inr a_diffs"
| "group_items diffs a_diffs (item # items) =
     (case group_file diffs a_diffs item of
        Inl e \<Rightarrow> Inl e
      | Inr a_diffs1 \<Rightarrow> group_items diffs a_diffs1 items)"

text \<open>The outer loop \<open>for mod_diff in diffs\<close>; the first argument is the whole list
  \<open>diffs\<close>, the last the part of it still to visit.\<close>

fun group_mods ::
  "(string \<times> 'v diff) list list \<Rightarrow> (Map \<times> 'v diff list) list \<Rightarrow> (string \<times> 'v diff) list list
     \<Rightarrow> error + (Map \<times> 'v diff list) list" where
  "group_mods diffs a_diffs [] = Inr a_diffs"
| "group_mods diffs a_diffs (mod_diff # rest) =
     (case group_items diffs a_diffs mod_diff of
        Inl e \<Rightarrow> Inl e
      | Inr a_diffs1 \<Rightarrow> group_mods diffs a_diffs1 rest)"

text \<open>
  The \<open>'del'\<close> list \<open>list(set([hash_id for hashes in [mod['del'] for mod in mods] for hash_id
  in hashes]))\<close>. Python does not fix the order in which a set is listed; the model lists
  each id once.
\<close>

definition consolidate_del :: "'v diff list \<Rightarrow> int list" where
  "consolidate_del mods = remdups (concat (map del mods))"

text \<open>The \<open>'mod'\<close> dictionary: every entry of every mod, in order, later ones overwriting.\<close>

fun set_entries :: "(int \<times> 'v actor) list \<Rightarrow> (int \<times> 'v actor) list \<Rightarrow> (int \<times> 'v actor) list" where
  "set_entries c_mod [] = c_mod"
| "set_entries c_mod ((hash_id, actor) # entries) =
     set_entries (dict_set hash_id actor c_mod) entries"

fun consolidate_mod :: "(int \<times> 'v actor) list \<Rightarrow> 'v diff list \<Rightarrow> (int \<times> 'v actor) list" where
  "consolidate_mod c_mod [] = c_mod"
| "consolidate_mod c_mod (m # mods) = consolidate_mod (set_entries c_mod (mod_entries m)) mods"

text \<open>The \<open>'add'\<close> list: the mods in reverse, an actor kept when its \<open>HashId\<close> is not yet
  in \<open>add_hashes\<close>. The state is the pair of \<open>add_hashes\<close> and the list built so far.\<close>

fun add_actors :: "int list \<times> 'v actor list \<Rightarrow> 'v actor list \<Rightarrow> int list \<times> 'v actor list" where
  "add_actors st [] = st"
| "add_actors (add_hashes, c_add) (actor # actors) =
     (if HashId actor \<notin> set add_hashes
      then add_actors (add_hashes @ [HashId actor], c_add @ [actor]) actors
      else add_actors (add_hashes, c_add) actors)"

fun consolidate_add :: "int list \<times> 'v actor list \<Rightarrow> 'v diff list \<Rightarrow> int list \<times> 'v actor list" where
  "consolidate_add st [] = st"
| "consolidate_add st (m # reversed_mods) = consolidate_add (add_actors st (add m)) reversed_mods"

text \<open>The value stored in \<open>c_diffs[file]\<close> for the diffs \<open>mods\<close> grouped under one map.\<close>

definition consolidate_group :: "'v diff list \<Rightarrow> 'v diff" where
  "consolidate_group mods =
     \<lparr> add = snd (consolidate_add ([], []) (rev mods)),
       mod_entries = consolidate_mod [] mods,
       del = consolidate_del mods \<rparr>"

fun consolidate_groups ::
  "(Map \<times> 'v diff) list \<Rightarrow> (Map \<times> 'v diff list) list \<Rightarrow> (Map \<times> 'v diff) list" where
  "consolidate_groups c_diffs [] = c_diffs"
| "consolidate_groups c_diffs ((file, mods) # rest) =
     consolidate_groups (dict_set file (consolidate_group mods) c_diffs) rest"

definition consolidate_diffs :: "(string \<times> 'v diff) list list \<Rightarrow> error + (Map \<times> 'v diff) list" where
  "consolidate_diffs diffs =
     (case group_mods diffs [] diffs of
        Inl e \<Rightarrow> Inl e
      | Inr a_diffs \<Rightarrow> Inr (consolidate_groups [] a_diffs))"

subsection \<open>The environment: settings, files and libraries\<close>

text \<open>
  The directories as \<open>util.get_game_dir\<close>, \<open>util.get_update_dir\<close> and
  \<open>util.get_aoc_dir\<close> resolve them from the saved settings (\<open>None\<close> when the call raises
  \<open>FileNotFoundError\<close>), the data directory of \<open>util.get_data_dir\<close> and the \<open>wiiu\<close>
  setting.
\<close>

record settings =
  game_dir :: "path option"
  update_dir :: "path option"
  aoc_dir :: "path option"
  data_dir :: path
  wiiu :: bool

text \<open>The file system maps the path of each existing file to its content. Directories
  hold no content of their own, so \<open>mkdir\<close> changes nothing.\<close>

type_synonym files = "path \<Rightarrow> bytes option"

text \<open>
  The libraries the merger calls are parameters: \<open>sarc.read_file_and_make_sarc\<close> (an
  archive is the map from its entries' names to their data, \<open>None\<close> when the bytes are no
  archive), \<open>syaz0\<close>, \<open>byml.Byml(...).parse()\<close>, \<open>byml.Writer(doc, be).get_bytes()\<close>,
  \<open>rstb.SizeCalculator.calculate_file_size_with_ext\<close>, Python's \<open>str\<close> of an actor and
  \<open>multiprocessing.cpu_count\<close>.
\<close>

record 'v lib =
  read_file_and_make_sarc :: "bytes \<Rightarrow> (path \<Rightarrow> bytes option) option"
  decompress :: "bytes \<Rightarrow> bytes"
  compress :: "bytes \<Rightarrow> bytes"
  parse :: "bytes \<Rightarrow> 'v document"
  get_bytes :: "'v document \<Rightarrow> bool \<Rightarrow> bytes"
  calculate_file_size_with_ext :: "bytes \<Rightarrow> bool \<Rightarrow> string \<Rightarrow> int"
  str :: "'v actor \<Rightarrow> string"
  cpu_count :: int

text \<open>\<open>d / p\<close> of \<open>pathlib\<close>, \<open>p.exists()\<close> and \<open>p.read_bytes()\<close>.\<close>

definition join :: "path \<Rightarrow> path \<Rightarrow> path" where
  "join d p = d @ ''/'' @ p"

definition exists :: "files \<Rightarrow> path \<Rightarrow> bool" where
  "exists fs p = (fs p \<noteq> None)"

definition read_bytes :: "files \<Rightarrow> path \<Rightarrow> error + bytes" where
  "read_bytes fs p = (case fs p of None \<Rightarrow> Inl FileNotFoundError | Some b \<Rightarrow> Inr b)"

text \<open>\<open>s.replace(old, new)\<close> for a non-empty \<open>old\<close>: every occurrence, from the left.\<close>

function replace :: "string \<Rightarrow> string \<Rightarrow> string \<Rightarrow> string" where
  "replace [] old new = []"
| "replace (c # cs) old new =
     (if old \<noteq> [] \<and> startswith (c # cs) old
      then new @ replace (drop (length old) (c # cs)) old new
      else c # replace cs old new)"
  by pat_completeness auto
termination
  by (relation "measure (\<lambda>(s, old, new). length s)") (auto simp: neq_Nil_conv)

text \<open>The backslash of \<open>'content\\'\<close>.\<close>

definition backslash :: char where
  "backslash = CHR 0x5C"

subsection \<open>\<open>util.get_game_file\<close>\<close>

definition get_game_file :: "settings \<Rightarrow> files \<Rightarrow> path \<Rightarrow> bool \<Rightarrow> error + path" where
  "get_game_file st fs path0 aoc =
     (let path1 =
        (if startswith path0 ''content/'' \<or> startswith path0 (''content'' @ [backslash])
         then replace (replace path0 ''content/'' []) (''content'' @ [backslash]) []
         else path0)
      in case game_dir st of
           None \<Rightarrow> Inl FileNotFoundError
         | Some game \<Rightarrow>
             (case update_dir st of
                None \<Rightarrow> Inl FileNotFoundError
              | Some update \<Rightarrow>
                  (if ''aoc'' \<in> set (split CHR ''/'' path1) \<or> aoc then
                     (case aoc_dir st of
                        Some aoc_d \<Rightarrow>
                          (let path2 =
                             replace (replace (replace (replace path1 ''aoc/content/0010/'' [])
                               ''aoc/0010/content/'' []) ''aoc/content/'' []) ''aoc/0010/'' []
                           in if exists fs (join aoc_d path2) then Inr (join aoc_d path2)
                              else Inl FileNotFoundError)
                      | None \<Rightarrow> Inl FileNotFoundError)
                   else if exists fs (join update path1) then Inr (join update path1)
                   else if exists fs (join game path1) then Inr (join game path1)
                   else (case aoc_dir st of
                           Some aoc_d \<Rightarrow>
                             (if exists fs (join aoc_d path1) then Inr (join aoc_d path1)
                              else Inl FileNotFoundError)
                         | None \<Rightarrow> Inl FileNotFoundError))))"

subsection \<open>\<open>get_stock_map\<close>\<close>

text \<open>\<open>'Map/MainField/{section}/{section}_{type}.smubin'\<close>.\<close>

definition smubin_path :: "Map \<Rightarrow> path" where
  "smubin_path map_unit =
     ''Map/MainField/'' @ Map_section map_unit @ ''/'' @ Map_section map_unit @ ''_''
       @ Map_type map_unit @ ''.smubin''"

text \<open>\<open>not map_bytes\<close>: \<open>None\<close> and the empty byte string are both false.\<close>

definition not_bytes :: "bytes option \<Rightarrow> bool" where
  "not_bytes map_bytes = (map_bytes = None \<or> map_bytes = Some [])"

text \<open>The entry of the map in an archive file: \<open>None\<close> when the bytes are no archive or
  the archive has no such entry (\<open>KeyError\<close>).\<close>

definition pack_entry :: "'v lib \<Rightarrow> bytes \<Rightarrow> Map \<Rightarrow> bytes option" where
  "pack_entry L pack_bytes map_unit =
     (case read_file_and_make_sarc L pack_bytes of
        None \<Rightarrow> None
      | Some pack \<Rightarrow> pack (smubin_path map_unit))"

text \<open>The last resort of both branches: the map inside \<open>Pack/TitleBG.pack\<close>. A
  \<open>FileNotFoundError\<close> of \<open>get_game_file\<close> is not caught here.\<close>

definition title_pack_map :: "settings \<Rightarrow> files \<Rightarrow> 'v lib \<Rightarrow> Map \<Rightarrow> error + bytes option" where
  "title_pack_map st fs L map_unit =
     (case get_game_file st fs ''Pack/TitleBG.pack'' False of
        Inl e \<Rightarrow> Inl e
      | Inr p \<Rightarrow>
          (case read_bytes fs p of
             Inl e \<Rightarrow> Inl e
           | Inr pack_bytes \<Rightarrow> Inr (pack_entry L pack_bytes map_unit)))"

text \<open>The \<open>try\<close> block of the \<open>force_vanilla\<close> branch: the update directory's file, or
  the game directory's when the former does not exist.\<close>

definition vanilla_file :: "settings \<Rightarrow> files \<Rightarrow> Map \<Rightarrow> error + bytes" where
  "vanilla_file st fs map_unit =
     (case update_dir st of
        None \<Rightarrow> Inl FileNotFoundError
      | Some update \<Rightarrow>
          (if \<not> exists fs (join update (smubin_path map_unit)) then
             (case game_dir st of
                None \<Rightarrow> Inl FileNotFoundError
              | Some game \<Rightarrow> read_bytes fs (join game (smubin_path map_unit)))
           else read_bytes fs (join update (smubin_path map_unit))))"

definition vanilla_map :: "settings \<Rightarrow> files \<Rightarrow> 'v lib \<Rightarrow> Map \<Rightarrow> error + bytes option" where
  "vanilla_map st fs L map_unit =
     (case vanilla_file st fs map_unit of
        Inr map_bytes \<Rightarrow> Inr (Some map_bytes)
      | Inl FileNotFoundError \<Rightarrow> title_pack_map st fs L map_unit
      | Inl e \<Rightarrow> Inl e)"

text \<open>The other branch: the map inside the DLC's \<open>AocMainField.pack\<close>, then the loose DLC
  file, then the file \<open>get_game_file\<close> finds without \<open>aoc\<close>, then \<open>TitleBG.pack\<close>.\<close>

definition aoc_pack_map :: "files \<Rightarrow> 'v lib \<Rightarrow> path \<Rightarrow> Map \<Rightarrow> bytes option" where
  "aoc_pack_map fs L aoc_d map_unit =
     (case fs (join (join aoc_d ''Pack'') ''AocMainField.pack'') of
        None \<Rightarrow> None
      | Some pack_bytes \<Rightarrow> pack_entry L pack_bytes map_unit)"

definition game_file_map :: "settings \<Rightarrow> files \<Rightarrow> 'v lib \<Rightarrow> Map \<Rightarrow> error + bytes option" where
  "game_file_map st fs L map_unit =
     (case get_game_file st fs (smubin_path map_unit) True of
        Inr p \<Rightarrow> (case read_bytes fs p of Inl e \<Rightarrow> Inl e | Inr b \<Rightarrow> Inr (Some b))
      | Inl FileNotFoundError \<Rightarrow>
          (case get_game_file st fs (smubin_path map_unit) False of
             Inr p \<Rightarrow> (case read_bytes fs p of Inl e \<Rightarrow> Inl e | Inr b \<Rightarrow> Inr (Some b))
           | Inl FileNotFoundError \<Rightarrow> title_pack_map st fs L map_unit
           | Inl e \<Rightarrow> Inl e)
      | Inl e \<Rightarrow> Inl e)"

definition aoc_map :: "settings \<Rightarrow> files \<Rightarrow> 'v lib \<Rightarrow> path \<Rightarrow> Map \<Rightarrow> error + bytes option" where
  "aoc_map st fs L aoc_d map_unit =
     (let map_bytes = aoc_pack_map fs L aoc_d map_unit
      in if not_bytes map_bytes then game_file_map st fs L map_unit else Inr map_bytes)"

text \<open>\<open>get_stock_map(map_unit, force_vanilla)\<close>. A missing DLC directory forces the
  vanilla branch.\<close>

definition stock_map_bytes ::
  "settings \<Rightarrow> files \<Rightarrow> 'v lib \<Rightarrow> Map \<Rightarrow> bool \<Rightarrow> error + bytes option" where
  "stock_map_bytes st fs L map_unit force_vanilla =
     (case aoc_dir st of
        None \<Rightarrow> vanilla_map st fs L map_unit
      | Some aoc_d \<Rightarrow>
          (if force_vanilla then vanilla_map st fs L map_unit
           else aoc_map st fs L aoc_d map_unit))"

text \<open>Lines 92 to 97: no bytes is a \<open>FileNotFoundError\<close>, any bytes are decompressed
  and parsed.\<close>

definition load_map :: "'v lib \<Rightarrow> error + bytes option \<Rightarrow> error + 'v document" where
  "load_map L found =
     (case found of
        Inl e \<Rightarrow> Inl e
      | Inr map_bytes \<Rightarrow>
          (if not_bytes map_bytes then Inl FileNotFoundError
           else Inr (parse L (decompress L (the map_bytes)))))"

definition get_stock_map ::
  "settings \<Rightarrow> files \<Rightarrow> 'v lib \<Rightarrow> Map \<Rightarrow> bool \<Rightarrow> error + 'v document" where
  "get_stock_map st fs L map_unit force_vanilla =
     load_map L (stock_map_bytes st fs L map_unit force_vanilla)"

subsection \<open>\<open>get_map_diff\<close>\<close>

text \<open>The first argument is \<open>Union[dict, Map]\<close>: a loaded document or the key of a map
  unit whose stock document is to be loaded.\<close>

datatype 'v base_map = BaseMap Map | BaseDoc "'v document"

text \<open>The loop that sets \<open>stock_map\<close>: \<open>True\<close> at first, \<open>False\<close> as soon as the text
  of an object contains one of the two hard-mode names.\<close>

fun stock_map :: "('v actor \<Rightarrow> string) \<Rightarrow> 'v actor list \<Rightarrow> bool" where
  "stock_map str_f [] = True"
| "stock_map str_f (obj # objs) =
     (if str_in ''IsHardModeActor'' (str_f obj) \<or> str_in ''AoC_HardMode_Enabled'' (str_f obj)
      then False
      else stock_map str_f objs)"

text \<open>Lines 144 to 151: the baseline the modified map is compared with.\<close>

definition resolve_base_map ::
  "settings \<Rightarrow> files \<Rightarrow> 'v lib \<Rightarrow> 'v base_map \<Rightarrow> 'v document \<Rightarrow> error + 'v document" where
  "resolve_base_map st fs L base_map mod_map =
     (case base_map of
        BaseMap map_unit \<Rightarrow> get_stock_map st fs L map_unit (stock_map (str L) (Objs mod_map))
      | BaseDoc doc \<Rightarrow> Inr doc)"

text \<open>\<open>base_links\<close>: the \<open>DestUnitHashId\<close> of every link of every baseline object; it stays
  empty when \<open>link_del\<close> is set. A Python set, here the list of its members.\<close>

definition obj_links :: "'v actor \<Rightarrow> int list" where
  "obj_links obj = (case LinksToObj obj of None \<Rightarrow> [] | Some links \<Rightarrow> map DestUnitHashId links)"

definition base_links :: "'v actor list \<Rightarrow> bool \<Rightarrow> int list" where
  "base_links base_objs link_del = (if \<not> link_del then concat (map obj_links base_objs) else [])"

text \<open>The loop over the modified map's objects, on the pair of \<open>diffs['add']\<close> and
  \<open>diffs['mod']\<close>.\<close>

fun diff_objs ::
  "int list \<Rightarrow> 'v actor list \<Rightarrow> 'v actor list \<times> (int \<times> 'v actor) list \<Rightarrow> 'v actor list
     \<Rightarrow> 'v actor list \<times> (int \<times> 'v actor) list" where
  "diff_objs base_hashes base_objs diffs [] = diffs"
| "diff_objs base_hashes base_objs (d_add, d_mod) (obj # objs) =
     (if HashId obj \<notin> set base_hashes
      then diff_objs base_hashes base_objs (d_add @ [obj], d_mod) objs
      else if HashId obj \<in> set base_hashes
              \<and> obj \<noteq> base_objs ! the (index base_hashes (HashId obj))
      then diff_objs base_hashes base_objs (d_add, dict_set (HashId obj) obj d_mod) objs
      else diff_objs base_hashes base_objs (d_add, d_mod) objs)"

text \<open>Lines 152 to 168, for a loaded baseline.\<close>

definition map_diff :: "'v document \<Rightarrow> 'v document \<Rightarrow> bool \<Rightarrow> bool \<Rightarrow> 'v diff" where
  "map_diff base_map mod_map no_del link_del =
     (let base_hashes = map HashId (Objs base_map);
          links = base_links (Objs base_map) link_del;
          mod_hashes = map HashId (Objs mod_map);
          diffs = diff_objs base_hashes (Objs base_map) ([], []) (Objs mod_map)
      in \<lparr> add = fst diffs,
           mod_entries = snd diffs,
           del = filter (\<lambda>hash_id. hash_id \<notin> set mod_hashes \<and> \<not> no_del
                           \<and> \<not> (\<not> link_del \<and> hash_id \<in> set links)) base_hashes \<rparr>)"

definition get_map_diff ::
  "settings \<Rightarrow> files \<Rightarrow> 'v lib \<Rightarrow> 'v base_map \<Rightarrow> 'v document \<Rightarrow> bool \<Rightarrow> bool \<Rightarrow> error + 'v diff" where
  "get_map_diff st fs L base_map mod_map no_del link_del =
     (case resolve_base_map st fs L base_map mod_map of
        Inl e \<Rightarrow> Inl e
      | Inr base \<Rightarrow> Inr (map_diff base mod_map no_del link_del))"

subsection \<open>\<open>merge_map\<close>\<close>

text \<open>The loop over \<open>changes['mod'].items()\<close>, on the pair of \<open>new_map['Objs']\<close> and
  \<open>changes['add']\<close>. The object list keeps the length of \<open>stock_hashes\<close> in this loop, so
  the assignment is always in range.\<close>

fun apply_mods ::
  "int list \<Rightarrow> 'v actor list \<times> 'v actor list \<Rightarrow> (int \<times> 'v actor) list
     \<Rightarrow> 'v actor list \<times> 'v actor list" where
  "apply_mods stock_hashes st [] = st"
| "apply_mods stock_hashes (objs, adds) ((hash_id, actor) # entries) =
     (case index stock_hashes hash_id of
        Some i \<Rightarrow> apply_mods stock_hashes (objs[i := actor], adds) entries
      | None \<Rightarrow> apply_mods stock_hashes (objs, adds @ [actor]) entries)"

text \<open>The sort key of the deletions, and \<open>sorted(xs, key=key, reverse=True)\<close>, which keeps
  the given order among equal keys.\<close>

definition del_key :: "int list \<Rightarrow> int \<Rightarrow> int" where
  "del_key stock_hashes change =
     (if change \<in> set stock_hashes then int (the (index stock_hashes change)) else - 1)"

definition sorted_reverse :: "('a \<Rightarrow> int) \<Rightarrow> 'a list \<Rightarrow> 'a list" where
  "sorted_reverse key xs = rev (sort_key key (rev xs))"

text \<open>\<open>xs.pop(i)\<close> for \<open>i \<ge> 0\<close>; \<open>None\<close> stands for \<open>IndexError\<close>.\<close>

definition pop :: "nat \<Rightarrow> 'a list \<Rightarrow> 'a list option" where
  "pop i xs = (if i < length xs then Some (take i xs @ drop (Suc i) xs) else None)"

text \<open>One round of the deletion loop. When \<open>pop\<close> fails, the first object with that
  \<open>HashId\<close> is removed; when there is none, the list stays as it is.\<close>

definition delete_actor :: "int list \<Rightarrow> 'v actor list \<Rightarrow> int \<Rightarrow> 'v actor list" where
  "delete_actor stock_hashes objs map_del =
     (if map_del \<in> set stock_hashes then
        (case pop (the (index stock_hashes map_del)) objs of
           Some objs1 \<Rightarrow> objs1
         | None \<Rightarrow>
             (case filter (\<lambda>actor. HashId actor = map_del) objs of
                [] \<Rightarrow> objs
              | obj_to_delete # others \<Rightarrow> remove1 obj_to_delete objs))
      else objs)"

fun delete_actors :: "int list \<Rightarrow> 'v actor list \<Rightarrow> int list \<Rightarrow> 'v actor list" where
  "delete_actors stock_hashes objs [] = objs"
| "delete_actors stock_hashes objs (map_del # dels) =
     delete_actors stock_hashes (delete_actor stock_hashes objs map_del) dels"

text \<open>Lines 191 to 214: the object list of the merged map.\<close>

definition merge_objs :: "'v actor list \<Rightarrow> 'v diff \<Rightarrow> bool \<Rightarrow> 'v actor list" where
  "merge_objs stock_objs changes no_del =
     (let stock_hashes = map HashId stock_objs;
          modded = apply_mods stock_hashes (stock_objs, add changes) (mod_entries changes);
          objs1 = (if \<not> no_del
                   then delete_actors stock_hashes (fst modded)
                          (sorted_reverse (del_key stock_hashes) (del changes))
                   else fst modded);
          objs2 = objs1 @ filter (\<lambda>change. HashId change \<notin> set stock_hashes) (snd modded)
      in sort_key HashId objs2)"

text \<open>\<open>util.get_master_modpack_dir\<close> returns the master pack's directory and writes its
  \<open>rules.txt\<close> when that is missing.\<close>

definition newline :: string where
  "newline = [CHR 0x0A]"

definition rules_txt :: string where
  "rules_txt =
     ''[Definition]'' @ newline
     @ ''titleIds = 00050000101C9300,00050000101C9400,00050000101C9500'' @ newline
     @ ''name = BCML'' @ newline
     @ ''path = The Legend of Zelda: Breath of the Wild/Mods/BCML'' @ newline
     @ ''description = Complete pack of mods merged using BCML'' @ newline
     @ ''version = 4'' @ newline
     @ ''fsPriority = 9999''"

definition get_modpack_dir :: "settings \<Rightarrow> path" where
  "get_modpack_dir st = join (data_dir st) ''mods''"

definition create_bcml_graphicpack_if_needed :: "settings \<Rightarrow> files \<Rightarrow> files" where
  "create_bcml_graphicpack_if_needed st fs =
     (let rules = join (join (get_modpack_dir st) ''9999_BCML'') ''rules.txt''
      in if \<not> exists fs rules then fs(rules \<mapsto> rules_txt) else fs)"

definition get_master_modpack_dir :: "settings \<Rightarrow> files \<Rightarrow> path \<times> files" where
  "get_master_modpack_dir st fs =
     (let master = join (get_modpack_dir st) ''9999_BCML''
      in (master,
          if \<not> exists fs (join master ''rules.txt'')
          then create_bcml_graphicpack_if_needed st fs else fs))"

text \<open>The file system \<open>get_master_modpack_dir\<close> leaves, in one expression; the lemma
  \<open>get_master_modpack_dir_eq\<close> below relates the two.\<close>

definition with_rules :: "settings \<Rightarrow> files \<Rightarrow> files" where
  "with_rules st fs =
     (if fs (join (join (get_modpack_dir st) ''9999_BCML'') ''rules.txt'') = None
      then fs(join (join (get_modpack_dir st) ''9999_BCML'') ''rules.txt'' \<mapsto> rules_txt)
      else fs)"

text \<open>The dictionary \<open>{'aoc': (name, size), 'main': (name, size)}\<close> that \<open>merge_map\<close>
  returns.\<close>

record rstb_result =
  aoc :: "string \<times> int"
  main :: "string \<times> int"

definition mubin_name :: "Map \<Rightarrow> string" where
  "mubin_name map_unit =
     ''Map/MainField/'' @ Map_section map_unit @ ''/'' @ Map_section map_unit @ ''_''
       @ Map_type map_unit @ ''.mubin''"

text \<open>\<open>merge_map\<close> loads the stock map without \<open>force_vanilla\<close>, merges, and writes the
  merged map twice: whole under \<open>aoc/0010\<close>, and without the objects whose
  \<open>UnitConfigName\<close> starts with \<open>DLC\<close> under \<open>content\<close>.\<close>

definition merge_map ::
  "settings \<Rightarrow> files \<Rightarrow> 'v lib \<Rightarrow> Map \<times> 'v diff \<Rightarrow> bool \<Rightarrow> bool
     \<Rightarrow> error + rstb_result \<times> files" where
  "merge_map st fs L map_pair no_del link_del =
     (let map_unit = fst map_pair; changes = snd map_pair
      in case get_stock_map st fs L map_unit False of
           Inl e \<Rightarrow> Inl e
         | Inr stock \<Rightarrow>
             (let new_map = stock\<lparr>Objs := merge_objs (Objs stock) changes no_del\<rparr>;
                  m1 = get_master_modpack_dir st fs;
                  aoc_out = join (join (join (join (join (join (fst m1) ''aoc'') ''0010'') ''Map'')
                              ''MainField'') (Map_section map_unit))
                              (Map_section map_unit @ ''_'' @ Map_type map_unit @ ''.smubin'');
                  aoc_bytes = get_bytes L new_map (wiiu st);
                  fs1 = (snd m1)(aoc_out \<mapsto> compress L aoc_bytes);
                  base_map = new_map\<lparr>Objs :=
                    filter (\<lambda>obj. \<not> startswith (UnitConfigName obj) ''DLC'') (Objs new_map)\<rparr>;
                  m2 = get_master_modpack_dir st fs1;
                  m3 = get_master_modpack_dir st (snd m2);
                  base_out = join (join (join (join (join (fst m3) ''content'') ''Map'')
                               ''MainField'') (Map_section map_unit))
                               (Map_section map_unit @ ''_'' @ Map_type map_unit @ ''.smubin'');
                  base_bytes = get_bytes L base_map (wiiu st);
                  fs2 = (snd m3)(base_out \<mapsto> compress L base_bytes)
              in Inr (\<lparr> aoc = (''Aoc/0010/'' @ mubin_name map_unit,
                                calculate_file_size_with_ext L aoc_bytes True ''.mubin''),
                         main = (mubin_name map_unit,
                                 calculate_file_size_with_ext L base_bytes True ''.mubin'') \<rparr>,
                      fs2)))"

subsection \<open>\<open>MapMerger.perform_merge\<close>\<close>

text \<open>\<open>shutil.rmtree(d, ignore_errors=True)\<close> removes every file below \<open>d\<close>;
  \<open>p.unlink()\<close> removes one file.\<close>

definition rmtree :: "files \<Rightarrow> path \<Rightarrow> files" where
  "rmtree fs d = (\<lambda>p. if startswith p (d @ ''/'') then None else fs p)"

definition unlink :: "files \<Rightarrow> path \<Rightarrow> files" where
  "unlink fs p = fs(p := None)"

text \<open>\<open>multiprocessing.Pool(processes=n)\<close> raises \<open>ValueError\<close> unless \<open>n\<close> is at
  least 1.\<close>

definition Pool :: "int \<Rightarrow> error + int" where
  "Pool processes = (if processes < 1 then Inl ValueError else Inr processes)"

text \<open>\<open>num_threads = min(cpu_count() - 1, len(map_diffs))\<close>.\<close>

definition num_threads :: "'v lib \<Rightarrow> (Map \<times> 'v diff) list \<Rightarrow> int" where
  "num_threads L map_diffs = min (cpu_count L - 1) (int (length map_diffs))"

text \<open>\<open>pool.map\<close> of \<open>merge_map\<close> over the items of \<open>map_diffs\<close>. The workers write
  different files, so their writes are made one after the other here.\<close>

fun pool_map ::
  "settings \<Rightarrow> files \<Rightarrow> 'v lib \<Rightarrow> bool \<Rightarrow> bool \<Rightarrow> (Map \<times> 'v diff) list
     \<Rightarrow> error + rstb_result list \<times> files" where
  "pool_map st fs L no_del link_del [] = Inr ([], fs)"
| "pool_map st fs L no_del link_del (map_pair # pairs) =
     (case merge_map st fs L map_pair no_del link_del of
        Inl e \<Rightarrow> Inl e
      | Inr (result, fs1) \<Rightarrow>
          (case pool_map st fs1 L no_del link_del pairs of
             Inl e \<Rightarrow> Inl e
           | Inr (results, fs2) \<Rightarrow> Inr (result # results, fs2)))"

fun rstb_vals :: "(string \<times> int) list \<Rightarrow> rstb_result list \<Rightarrow> (string \<times> int) list" where
  "rstb_vals vals [] = vals"
| "rstb_vals vals (result # results) =
     rstb_vals (dict_set (fst (main result)) (snd (main result))
                 (dict_set (fst (aoc result)) (snd (aoc result)) vals)) results"

text \<open>The decimal text of an integer, as an f-string prints it.\<close>

fun nat_str :: "nat \<Rightarrow> string" where
  "nat_str n =
     (if n < 10 then [''0123456789'' ! n]
      else nat_str (n div 10) @ [''0123456789'' ! (n mod 10)])"

declare nat_str.simps [simp del]

definition int_str :: "int \<Rightarrow> string" where
  "int_str i = (if i < 0 then ''-'' @ nat_str (nat (- i)) else nat_str (nat i))"

definition log_text :: "(string \<times> int) list \<Rightarrow> string" where
  "log_text vals = concat (map (\<lambda>(canon, val). canon @ '','' @ int_str val @ newline) vals)"

text \<open>The steps of \<open>perform_merge\<close> before the diffs are loaded: \<open>AocMainField.pack\<close> is
  written empty unless it exists and is empty already, the two \<open>MainField\<close> trees are
  removed, and so is \<open>logs/map.log\<close>.\<close>

definition reset_outputs :: "settings \<Rightarrow> files \<Rightarrow> files" where
  "reset_outputs st fs =
     (let m1 = get_master_modpack_dir st fs;
          aoc_pack = join (join (join (join (fst m1) ''aoc'') ''0010'') ''Pack'')
                       ''AocMainField.pack'';
          fs1 = (if \<not> exists (snd m1) aoc_pack \<or> length (the (snd m1 aoc_pack)) > 0
                 then (snd m1)(aoc_pack \<mapsto> []) else snd m1);
          m2 = get_master_modpack_dir st fs1;
          fs2 = rmtree (snd m2)
                  (join (join (join (join (fst m2) ''aoc'') ''0010'') ''Map'') ''MainField'');
          m3 = get_master_modpack_dir st fs2;
          fs3 = rmtree (snd m3) (join (join (join (fst m3) ''content'') ''Map'') ''MainField'');
          m4 = get_master_modpack_dir st fs3;
          log_path = join (join (fst m4) ''logs'') ''map.log''
      in if exists (snd m4) log_path then unlink (snd m4) log_path else snd m4)"

text \<open>The paths \<open>perform_merge\<close> works on: the master pack's directory and its
  \<open>rules.txt\<close>, the DLC archive it empties, the two trees it removes and the log it
  writes.\<close>

definition master_dir :: "settings \<Rightarrow> path" where
  "master_dir st = join (get_modpack_dir st) ''9999_BCML''"

definition rules_path :: "settings \<Rightarrow> path" where
  "rules_path st = join (master_dir st) ''rules.txt''"

definition aoc_pack_path :: "settings \<Rightarrow> path" where
  "aoc_pack_path st =
     join (join (join (join (master_dir st) ''aoc'') ''0010'') ''Pack'') ''AocMainField.pack''"

definition aoc_tree :: "settings \<Rightarrow> path" where
  "aoc_tree st = join (join (join (join (master_dir st) ''aoc'') ''0010'') ''Map'') ''MainField''"

definition content_tree :: "settings \<Rightarrow> path" where
  "content_tree st = join (join (join (master_dir st) ''content'') ''Map'') ''MainField''"

definition log_path :: "settings \<Rightarrow> path" where
  "log_path st = join (join (master_dir st) ''logs'') ''map.log''"

text \<open>\<open>perform_merge\<close>, given the list \<open>get_all_diffs()\<close> returns (the logged diffs of
  the installed mods, in the order of their priority). The result is the file system it
  leaves.\<close>

definition perform_merge ::
  "settings \<Rightarrow> files \<Rightarrow> 'v lib \<Rightarrow> bool \<Rightarrow> bool \<Rightarrow> (string \<times> 'v diff) list list
     \<Rightarrow> error + files" where
  "perform_merge st fs L no_del link_del all_diffs =
     (let fs1 = reset_outputs st fs
      in case consolidate_diffs all_diffs of
           Inl e \<Rightarrow> Inl e
         | Inr map_diffs \<Rightarrow>
             (if map_diffs = [] then Inr fs1
              else case Pool (num_threads L map_diffs) of
                     Inl e \<Rightarrow> Inl e
                   | Inr pool \<Rightarrow>
                       (case pool_map st fs1 L no_del link_del map_diffs of
                          Inl e \<Rightarrow> Inl e
                        | Inr (rstb_results, fs2) \<Rightarrow>
                            Inr (fs2(log_path st \<mapsto> log_text (rstb_vals [] rstb_results))))))"

subsection \<open>\<open>get_dungeonstatic_diff\<close>\<close>

text \<open>
  An entry of \<open>StartPos\<close> in \<open>Static.smubin\<close>: the keys \<open>Map\<close>, \<open>Rotate\<close> and
  \<open>Translate\<close> that the function reads, and the rest. A value of the result is either a
  whole entry of the modified file or a dictionary that has \<open>Rotate\<close>, \<open>Translate\<close>,
  or both.
\<close>

record 'v dungeon =
  Map :: string
  Rotate :: 'v
  Translate :: 'v
  dungeon_rest :: 'v







subsection \<open>Example data\<close>

text \<open>Two actors with the same \<open>HashId\<close> and different content.\<close>

definition actor_5X :: "string actor" where
  "actor_5X = \<lparr>HashId = 5, UnitConfigName = ''Obj'', LinksToObj = None, actor_rest = ''X''\<rparr>"

definition actor_5Y :: "string actor" where
  "actor_5Y = \<lparr>HashId = 5, UnitConfigName = ''Obj'', LinksToObj = None, actor_rest = ''Y''\<rparr>"

text \<open>A baseline whose object 2 links to object 1, and a modified map without object 1.\<close>

definition linked_base :: "string document" where
  "linked_base =
     \<lparr> Objs =
         [\<lparr> HashId = 1, UnitConfigName = ''Obj_A'', LinksToObj = None, actor_rest = '''' \<rparr>,
          \<lparr> HashId = 2, UnitConfigName = ''Obj_B'',
             LinksToObj = Some [\<lparr> DestUnitHashId = 1, link_rest = '''' \<rparr>], actor_rest = '''' \<rparr>],
       document_rest = '''' \<rparr>"

definition linked_mod :: "string document" where
  "linked_mod =
     \<lparr> Objs =
         [\<lparr> HashId = 2, UnitConfigName = ''Obj_B'',
             LinksToObj = Some [\<lparr> DestUnitHashId = 1, link_rest = '''' \<rparr>], actor_rest = '''' \<rparr>],
       document_rest = '''' \<rparr>"




text \<open>A game dump for the map unit \<open>A-1_Dynamic\<close>: the update directory holds the
  vanilla map, with one object; the DLC's \<open>AocMainField.pack\<close> holds the DLC map, which
  has a hard-mode object as well. The libraries of the example: an archive is the bytes
  \<open>SARC\<close>, compression changes nothing, the two maps are written \<open>vanilla\<close> and
  \<open>dlc\<close>, and the text of an actor is its field \<open>actor_rest\<close>.\<close>

definition plain_obj :: "string actor" where
  "plain_obj =
     \<lparr>HashId = 1, UnitConfigName = ''Obj_TreeApple'', LinksToObj = None, actor_rest = ''''\<rparr>"

definition hard_obj :: "string actor" where
  "hard_obj =
     \<lparr>HashId = 2, UnitConfigName = ''Enemy_Lynel_Gold'', LinksToObj = None,
      actor_rest = ''IsHardModeActor''\<rparr>"

definition vanilla_doc :: "string document" where
  "vanilla_doc = \<lparr>Objs = [plain_obj], document_rest = ''''\<rparr>"

definition dlc_doc :: "string document" where
  "dlc_doc = \<lparr>Objs = [plain_obj, hard_obj], document_rest = ''''\<rparr>"

definition ex_unit :: Map where
  "ex_unit = (''A-1'', ''Dynamic'')"

definition ex_settings :: settings where
  "ex_settings =
     \<lparr>game_dir = Some ''game'', update_dir = Some ''update'', aoc_dir = Some ''aoc'',
      data_dir = ''data'', wiiu = True\<rparr>"

definition ex_pack :: "path \<Rightarrow> bytes option" where
  "ex_pack = [''Map/MainField/A-1/A-1_Dynamic.smubin'' \<mapsto> ''dlc'']"

definition ex_files :: files where
  "ex_files = [''update/Map/MainField/A-1/A-1_Dynamic.smubin'' \<mapsto> ''vanilla'',
               ''aoc/Pack/AocMainField.pack'' \<mapsto> ''SARC'']"

definition ex_lib :: "string lib" where
  "ex_lib =
     \<lparr> read_file_and_make_sarc = (\<lambda>b. if b = ''SARC'' then Some ex_pack else None),
       decompress = (\<lambda>b. b),
       compress = (\<lambda>b. b),
       parse = (\<lambda>b. if b = ''dlc'' then dlc_doc else if b = ''vanilla'' then vanilla_doc
                     else \<lparr>Objs = [], document_rest = ''''\<rparr>),
       get_bytes = (\<lambda>doc be. concat (map actor_rest (Objs doc))),
       calculate_file_size_with_ext = (\<lambda>b c e. int (length b)),
       str = actor_rest,
       cpu_count = 4 \<rparr>"

text \<open>Other dumps: loose files in the game and DLC directories only; only
  \<open>TitleBG.pack\<close>; only the update directory's file.\<close>

definition loose_files :: files where
  "loose_files = [''game/Map/MainField/A-1/A-1_Dynamic.smubin'' \<mapsto> ''vanilla'',
                  ''aoc/Map/MainField/A-1/A-1_Dynamic.smubin'' \<mapsto> ''dlc'']"

definition title_files :: files where
  "title_files = [''update/Pack/TitleBG.pack'' \<mapsto> ''SARC'']"

definition update_files :: files where
  "update_files = [''update/Map/MainField/A-1/A-1_Dynamic.smubin'' \<mapsto> ''vanilla'']"

text \<open>A stock map of two objects, a changed version of the second, and a third object.\<close>

definition obj_1a :: "string actor" where
  "obj_1a = \<lparr>HashId = 1, UnitConfigName = ''Obj_A'', LinksToObj = None, actor_rest = ''a''\<rparr>"

definition obj_2b :: "string actor" where
  "obj_2b = \<lparr>HashId = 2, UnitConfigName = ''Obj_B'', LinksToObj = None, actor_rest = ''b''\<rparr>"

definition obj_2B :: "string actor" where
  "obj_2B = \<lparr>HashId = 2, UnitConfigName = ''Obj_B'', LinksToObj = None, actor_rest = ''B''\<rparr>"

definition obj_3c :: "string actor" where
  "obj_3c = \<lparr>HashId = 3, UnitConfigName = ''Obj_C'', LinksToObj = None, actor_rest = ''c''\<rparr>"

section \<open>Properties\<close>

subsection \<open>Dictionaries and lists\<close>


lemma map_of_dict_set: "map_of (dict_set k v d) k' = (if k' = k then Some v else map_of d k')"
  by (induction d) auto

lemma index_None_iff: "index xs x = None \<longleftrightarrow> x \<notin> set xs"
  by (induction xs) (auto split: option.splits)

lemma index_Some_nth: "index xs x = Some i \<Longrightarrow> i < length xs \<and> xs ! i = x"
  by (induction xs arbitrary: i) (auto split: option.splits if_splits)

lemma index_in_set: "x \<in> set xs \<Longrightarrow> \<exists>i. index xs x = Some i"
  using index_None_iff[of xs x] by (cases "index xs x") auto



lemma dict_set_twice: "dict_set k v (dict_set k w d) = dict_set k v d"
  by (induction d) auto

subsection \<open>Consolidation\<close>

lemma Map_in_False: "\<not> Map_in a_map diffs"
  by (induction diffs) (simp_all add: Map_in_def Map_eq_dict_def)

lemma group_file_resets:
  assumes "make_Map (split CHR ''_'' file) = Inr a_map"
  shows "group_file diffs a_diffs (file, d) = Inr (dict_set a_map [d] a_diffs)"
  using assms
  by (simp add: group_file_def Map_in_False dict_get_def map_of_dict_set dict_set_twice)

lemma group_mods_single_file:
  assumes "make_Map (split CHR ''_'' file) = Inr a_map" and "mods \<noteq> []"
  shows "group_mods diffs a_diffs (map (\<lambda>d. [(file, d)]) mods) = Inr (dict_set a_map [last mods] a_diffs)"
  using assms(2)
proof (induction mods arbitrary: a_diffs)
  case Nil
  then show ?case by simp
next
  case (Cons d mods)
  show ?case
  proof (cases "mods = []")
    case True
    then show ?thesis by (simp add: group_file_resets[OF assms(1)])
  next
    case False
    with Cons.IH[OF False] show ?thesis
      by (simp add: group_file_resets[OF assms(1)] dict_set_twice)
  qed
qed

lemma consolidate_diffs_single_file:
  assumes "make_Map (split CHR ''_'' file) = Inr a_map" and "mods \<noteq> []"
  shows "consolidate_diffs (map (\<lambda>d. [(file, d)]) mods) = Inr [(a_map, consolidate_group [last mods])]"
  by (simp add: consolidate_diffs_def group_mods_single_file[OF assms])

lemma add_actors_inv:
  assumes "add_hashes = map HashId c_add" and "distinct add_hashes"
  shows "fst (add_actors (add_hashes, c_add) actors)
           = map HashId (snd (add_actors (add_hashes, c_add) actors))
       \<and> distinct (map HashId (snd (add_actors (add_hashes, c_add) actors)))
       \<and> (\<exists>zs. snd (add_actors (add_hashes, c_add) actors) = c_add @ zs)"
  using assms
proof (induction actors arbitrary: add_hashes c_add)
  case Nil
  then show ?case by simp
next
  case (Cons actor actors)
  show ?case
  proof (cases "HashId actor \<in> set add_hashes")
    case True
    with Cons.IH[OF Cons.prems] show ?thesis by simp
  next
    case False
    have h: "add_hashes @ [HashId actor] = map HashId (c_add @ [actor])"
      using Cons.prems(1) by simp
    have d: "distinct (add_hashes @ [HashId actor])"
      using Cons.prems(2) False by simp
    from Cons.IH[OF h d] False show ?thesis by auto
  qed
qed

lemma add_actors_distinct:
  assumes "distinct (map HashId actors)" and "set add_hashes \<inter> HashId ` set actors = {}"
  shows "add_actors (add_hashes, c_add) actors = (add_hashes @ map HashId actors, c_add @ actors)"
  using assms
  by (induction actors arbitrary: add_hashes c_add) auto

lemma consolidate_add_inv:
  assumes "fst st = map HashId (snd st)" and "distinct (map HashId (snd st))"
  shows "fst (consolidate_add st mods) = map HashId (snd (consolidate_add st mods))
       \<and> distinct (map HashId (snd (consolidate_add st mods)))
       \<and> (\<exists>zs. snd (consolidate_add st mods) = snd st @ zs)"
  using assms
proof (induction mods arbitrary: st)
  case Nil
  then show ?case by simp
next
  case (Cons m mods)
  obtain add_hashes c_add where st: "st = (add_hashes, c_add)" by (cases st)
  from add_actors_inv[of add_hashes c_add "add m"] Cons.prems st
  obtain zs where a: "fst (add_actors st (add m)) = map HashId (snd (add_actors st (add m)))"
    and b: "distinct (map HashId (snd (add_actors st (add m))))"
    and c: "snd (add_actors st (add m)) = snd st @ zs" by auto
  from Cons.IH[OF a b] c show ?case by auto
qed

text \<open>The rule for one group, whatever list of diffs it is given: of the actors added
  under one \<open>HashId\<close>, the one of the last diff of the list is kept, since the loop
  visits the list in reverse and keeps what it sees first.\<close>

lemma consolidate_group_add_last:
  assumes "distinct (map HashId (add B))" and "y \<in> set (add B)"
  shows "y \<in> set (add (consolidate_group (mods @ [B])))
       \<and> (\<forall>x \<in> set (add (consolidate_group (mods @ [B]))). HashId x = HashId y \<longrightarrow> x = y)"
proof -
  let ?st = "(map HashId (add B), add B)"
  have first: "add_actors ([], []) (add B) = ?st"
    using add_actors_distinct[OF assms(1), of "[]" "[]"] by simp
  have c: "add (consolidate_group (mods @ [B])) = snd (consolidate_add ?st (rev mods))"
    by (simp add: consolidate_group_def first)
  from consolidate_add_inv[of ?st "rev mods"] assms(1)
  obtain zs where ids: "fst (consolidate_add ?st (rev mods)) = map HashId (snd (consolidate_add ?st (rev mods)))"
    and dist: "distinct (map HashId (snd (consolidate_add ?st (rev mods))))"
    and app: "snd (consolidate_add ?st (rev mods)) = add B @ zs" by auto
  have d: "distinct (map HashId (add (consolidate_group (mods @ [B]))))"
    using ids dist c by simp
  have y: "y \<in> set (add (consolidate_group (mods @ [B])))"
    using c app assms(2) by simp
  have "\<forall>x \<in> set (add (consolidate_group (mods @ [B]))). HashId x = HashId y \<longrightarrow> x = y"
    using d y by (meson distinct_map inj_onD)
  with y show ?thesis by blast
qed

lemma map_of_set_entries:
  "map_of (set_entries c_mod entries) h =
     (case map_of (rev entries) h of None \<Rightarrow> map_of c_mod h | Some v \<Rightarrow> Some v)"
proof (induction entries arbitrary: c_mod)
  case Nil
  then show ?case by simp
next
  case (Cons e entries)
  obtain k v where e: "e = (k, v)" by (cases e)
  show ?case
    by (simp add: e Cons.IH map_of_dict_set map_add_def split: option.splits)
qed

lemma consolidate_mod_append:
  "consolidate_mod c_mod (mods @ [B]) = set_entries (consolidate_mod c_mod mods) (mod_entries B)"
  by (induction mods arbitrary: c_mod) simp_all

lemma consolidate_group_mod_last:
  assumes "distinct (map fst (mod_entries B))" and "(h, y) \<in> set (mod_entries B)"
  shows "map_of (mod_entries (consolidate_group (mods @ [B]))) h = Some y"
proof -
  have "distinct (map fst (rev (mod_entries B)))"
    using assms(1) by (metis distinct_rev rev_map)
  then have "map_of (rev (mod_entries B)) h = Some y"
    using assms(2) by simp
  then show ?thesis
    by (simp add: consolidate_group_def consolidate_mod_append map_of_set_entries)
qed

lemma set_consolidate_del: "set (del (consolidate_group mods)) = (\<Union>m \<in> set mods. set (del m))"
  by (simp add: consolidate_group_def consolidate_del_def)

text \<open>
  C1 (amended). Two or more mods log a diff for the same map, in ascending priority. The
  consolidated record of that map holds, for every actor the last (highest-priority) mod
  adds, that actor and no other actor of the same \<open>HashId\<close>; and for every entry the last
  mod modifies, that mod's actor. Both fields resolve a clash on one \<open>HashId\<close> in favour
  of the last mod. The last mod's added actors have distinct \<open>HashId\<close>s and its
  dictionary of modifications has distinct keys.
\<close>

theorem consolidate_diffs_last_mod_wins:
  assumes "make_Map (split CHR ''_'' file) = Inr a_map"
    and "distinct (map HashId (add B))" and "distinct (map fst (mod_entries B))"
  shows "\<exists>c. consolidate_diffs (map (\<lambda>d. [(file, d)]) (mods @ [B])) = Inr [(a_map, c)]
           \<and> (\<forall>y \<in> set (add B). y \<in> set (add c) \<and> (\<forall>x \<in> set (add c). HashId x = HashId y \<longrightarrow> x = y))
           \<and> (\<forall>(h, y) \<in> set (mod_entries B). map_of (mod_entries c) h = Some y)"
proof -
  have c: "consolidate_diffs (map (\<lambda>d. [(file, d)]) (mods @ [B])) = Inr [(a_map, consolidate_group ([] @ [B]))]"
    using consolidate_diffs_single_file[OF assms(1), of "mods @ [B]"] by simp
  have a: "\<forall>y \<in> set (add B). y \<in> set (add (consolidate_group ([] @ [B])))
            \<and> (\<forall>x \<in> set (add (consolidate_group ([] @ [B]))). HashId x = HashId y \<longrightarrow> x = y)"
    using consolidate_group_add_last[OF assms(2), of _ "[]"] by blast
  have m: "\<forall>(h, y) \<in> set (mod_entries B). map_of (mod_entries (consolidate_group ([] @ [B]))) h = Some y"
    using consolidate_group_mod_last[OF assms(3), of _ _ "[]"] by blast
  from c a m show ?thesis by blast
qed

theorem consolidate_diffs_last_mod_wins_witness:
  "make_Map (split CHR ''_'' ''A-1_Dynamic'') = Inr (''A-1'', ''Dynamic'')
   \<and> distinct (map HashId [actor_5Y]) \<and> distinct (map fst [(5::int, actor_5Y)])
   \<and> (\<exists>c. consolidate_diffs
              [[(''A-1_Dynamic'', \<lparr>add = [actor_5X], mod_entries = [(5, actor_5X)], del = []\<rparr>)],
               [(''A-1_Dynamic'', \<lparr>add = [actor_5Y], mod_entries = [(5, actor_5Y)], del = []\<rparr>)]]
            = Inr [((''A-1'', ''Dynamic''), c)]
          \<and> actor_5Y \<in> set (add c) \<and> actor_5X \<notin> set (add c)
          \<and> map_of (mod_entries c) 5 = Some actor_5Y)"
proof -
  have m: "make_Map (split CHR ''_'' ''A-1_Dynamic'') = Inr (''A-1'', ''Dynamic'')"
    by (simp add: make_Map_def)
  have ne: "actor_5X \<noteq> actor_5Y" and ids: "HashId actor_5X = HashId actor_5Y"
    by (simp_all add: actor_5X_def actor_5Y_def)
  from consolidate_diffs_last_mod_wins[OF m,
      of "\<lparr>add = [actor_5Y], mod_entries = [(5, actor_5Y)], del = []\<rparr>"
         "[\<lparr>add = [actor_5X], mod_entries = [(5, actor_5X)], del = []\<rparr>]"]
  obtain c where c: "consolidate_diffs
              [[(''A-1_Dynamic'', \<lparr>add = [actor_5X], mod_entries = [(5, actor_5X)], del = []\<rparr>)],
               [(''A-1_Dynamic'', \<lparr>add = [actor_5Y], mod_entries = [(5, actor_5Y)], del = []\<rparr>)]]
            = Inr [((''A-1'', ''Dynamic''), c)]"
    and y: "actor_5Y \<in> set (add c)"
    and u: "\<forall>x \<in> set (add c). HashId x = HashId actor_5Y \<longrightarrow> x = actor_5Y"
    and e: "map_of (mod_entries c) 5 = Some actor_5Y"
    by auto
  from u ne ids have "actor_5X \<notin> set (add c)" by auto
  with m c y e show ?thesis by auto
qed

text \<open>The claim as written fails: when mod A (first) and mod B (second) both add
  \<open>HashId\<close> 5, the consolidated \<open>add\<close> list holds B's actor, not A's.\<close>

theorem consolidate_diffs_add_counterexample:
  "consolidate_diffs
     [[(''A-1_Dynamic'', \<lparr>add = [actor_5X], mod_entries = [], del = []\<rparr>)],
      [(''A-1_Dynamic'', \<lparr>add = [actor_5Y], mod_entries = [], del = []\<rparr>)]]
   = Inr [((''A-1'', ''Dynamic''), \<lparr>add = [actor_5Y], mod_entries = [], del = []\<rparr>)]
   \<and> actor_5X \<noteq> actor_5Y"
  by (simp add: consolidate_diffs_def group_file_def make_Map_def Map_in_def Map_eq_dict_def
      dict_get_def consolidate_group_def consolidate_del_def actor_5X_def actor_5Y_def)

text \<open>
  C2. Two mods log a diff for the same map, the first deleting \<open>HashId\<close> 1 and the second
  \<open>HashId\<close> 2. The consolidated \<open>del\<close> is \<open>[2]\<close>, not the union: the test
  \<open>a_map not in diffs\<close> looks in the list of logs instead of \<open>a_diffs\<close>, is always true,
  and empties the group's list before every diff is appended, so that only the last mod's diff is
  consolidated (lemma \<open>consolidate_diffs_single_file\<close>). Given the diffs of a group, the
  \<open>del\<close> of \<open>consolidate_group\<close> is the union (lemma \<open>set_consolidate_del\<close>).
\<close>

theorem consolidate_diffs_del_last_mod_only:
  "consolidate_diffs
     [[(''A-1_Dynamic'', \<lparr>add = [], mod_entries = [], del = [1]\<rparr>)],
      [(''A-1_Dynamic'', \<lparr>add = ([] :: string actor list), mod_entries = [], del = [2]\<rparr>)]]
   = Inr [((''A-1'', ''Dynamic''), \<lparr>add = [], mod_entries = [], del = [2]\<rparr>)]"
  by (simp add: consolidate_diffs_def group_file_def make_Map_def Map_in_def Map_eq_dict_def
      dict_get_def consolidate_group_def consolidate_del_def)

subsection \<open>Deletions of \<open>get_map_diff\<close>\<close>

lemma in_obj_links:
  "h \<in> set (obj_links obj) \<longleftrightarrow>
     (\<exists>links l. LinksToObj obj = Some links \<and> l \<in> set links \<and> h = DestUnitHashId l)"
  by (cases "LinksToObj obj") (auto simp: obj_links_def)

lemma in_base_links:
  "h \<in> set (base_links objs link_del) \<longleftrightarrow>
     \<not> link_del \<and> (\<exists>obj links l. obj \<in> set objs \<and> LinksToObj obj = Some links \<and> l \<in> set links
                 \<and> h = DestUnitHashId l)"
proof (cases link_del)
  case True
  then show ?thesis by (simp add: base_links_def)
next
  case False
  have "h \<in> set (concat (map obj_links objs)) \<longleftrightarrow> (\<exists>obj \<in> set objs. h \<in> set (obj_links obj))"
    by auto
  with False show ?thesis
    unfolding base_links_def in_obj_links by auto
qed

text \<open>
  C4. For a loaded baseline, \<open>get_map_diff\<close> returns a diff whose \<open>del\<close> holds exactly
  the baseline \<open>HashId\<close>s that no object of the modified map has; none at all when
  \<open>no_del\<close> is set; and, unless \<open>link_del\<close> is set, not those that a \<open>LinksToObj\<close>
  entry of a baseline object refers to. For the baseline of objects 1 and 2, where 2 links
  to 1, and a modified map without object 1, \<open>del\<close> is empty without \<open>link_del\<close>
  and \<open>[1]\<close> with it.
\<close>

theorem get_map_diff_del:
  "(\<exists>diffs. get_map_diff st fs L (BaseDoc base_map) mod_map no_del link_del = Inr diffs
     \<and> set (del diffs) =
         (if no_del then {}
          else {h. h \<in> HashId ` set (Objs base_map) \<and> h \<notin> HashId ` set (Objs mod_map)
                 \<and> (link_del \<or>
                     \<not> (\<exists>obj links l. obj \<in> set (Objs base_map) \<and> LinksToObj obj = Some links
                           \<and> l \<in> set links \<and> h = DestUnitHashId l))}))
   \<and> get_map_diff st fs L (BaseDoc linked_base) linked_mod False False
       = Inr \<lparr>add = [], mod_entries = [], del = []\<rparr>
   \<and> get_map_diff st fs L (BaseDoc linked_base) linked_mod False True
       = Inr \<lparr>add = [], mod_entries = [], del = [1]\<rparr>"
proof -
  have "set (del (map_diff base_map mod_map no_del link_del)) =
         (if no_del then {}
          else {h. h \<in> HashId ` set (Objs base_map) \<and> h \<notin> HashId ` set (Objs mod_map)
                 \<and> (link_del \<or>
                     \<not> (\<exists>obj links l. obj \<in> set (Objs base_map) \<and> LinksToObj obj = Some links
                           \<and> l \<in> set links \<and> h = DestUnitHashId l))})"
    unfolding map_diff_def Let_def by (auto simp: in_base_links)
  then have general: "\<exists>diffs. get_map_diff st fs L (BaseDoc base_map) mod_map no_del link_del = Inr diffs
     \<and> set (del diffs) =
         (if no_del then {}
          else {h. h \<in> HashId ` set (Objs base_map) \<and> h \<notin> HashId ` set (Objs mod_map)
                 \<and> (link_del \<or>
                     \<not> (\<exists>obj links l. obj \<in> set (Objs base_map) \<and> LinksToObj obj = Some links
                           \<and> l \<in> set links \<and> h = DestUnitHashId l))})"
    by (simp add: get_map_diff_def resolve_base_map_def)
  have off: "get_map_diff st fs L (BaseDoc linked_base) linked_mod False False
       = Inr \<lparr>add = [], mod_entries = [], del = []\<rparr>"
    by (simp add: get_map_diff_def resolve_base_map_def map_diff_def Let_def linked_base_def
        linked_mod_def base_links_def obj_links_def)
  have on: "get_map_diff st fs L (BaseDoc linked_base) linked_mod False True
       = Inr \<lparr>add = [], mod_entries = [], del = [1]\<rparr>"
    by (simp add: get_map_diff_def resolve_base_map_def map_diff_def Let_def linked_base_def
        linked_mod_def base_links_def obj_links_def)
  from general off on show ?thesis by blast
qed

subsection \<open>Shrine entrances\<close>





subsection \<open>The baseline of \<open>get_map_diff\<close>\<close>

lemma stock_map_iff:
  "stock_map str_f objs \<longleftrightarrow>
     \<not> (\<exists>obj \<in> set objs. str_in ''IsHardModeActor'' (str_f obj) \<or> str_in ''AoC_HardMode_Enabled'' (str_f obj))"
  by (induction objs) auto

lemma ex_smubin_path: "smubin_path ex_unit = ''Map/MainField/A-1/A-1_Dynamic.smubin''"
  by (simp add: smubin_path_def ex_unit_def Map_section_def Map_type_def)

lemma ex_aoc_dir: "aoc_dir ex_settings = Some ''aoc''"
  by (simp add: ex_settings_def)

lemma ex_parse: "parse ex_lib (decompress ex_lib ''dlc'') = dlc_doc"
  "parse ex_lib (decompress ex_lib ''vanilla'') = vanilla_doc"
  by (simp_all add: ex_lib_def)

lemma ex_title_pack:
  "title_pack_map ex_settings title_files ex_lib ex_unit = Inr (Some ''dlc'')"
  by (simp add: title_pack_map_def get_game_file_def ex_settings_def title_files_def exists_def
      join_def read_bytes_def pack_entry_def ex_lib_def ex_pack_def ex_smubin_path)

lemma ex_game_file_aoc:
  "get_game_file ex_settings loose_files (smubin_path ex_unit) True
     = Inr ''aoc/Map/MainField/A-1/A-1_Dynamic.smubin''"
  by (simp add: get_game_file_def ex_settings_def loose_files_def exists_def join_def ex_smubin_path)

lemma ex_game_file_update:
  "get_game_file ex_settings update_files (smubin_path ex_unit) True = Inl FileNotFoundError"
  "get_game_file ex_settings update_files (smubin_path ex_unit) False
     = Inr ''update/Map/MainField/A-1/A-1_Dynamic.smubin''"
  by (simp_all add: get_game_file_def ex_settings_def update_files_def exists_def join_def ex_smubin_path)

lemma ex_game_file_title:
  "get_game_file ex_settings title_files (smubin_path ex_unit) True = Inl FileNotFoundError"
  "get_game_file ex_settings title_files (smubin_path ex_unit) False = Inl FileNotFoundError"
  by (simp_all add: get_game_file_def ex_settings_def title_files_def exists_def join_def ex_smubin_path)

text \<open>
  C3 (amended). Called with the key of a map unit, \<open>get_map_diff\<close> compares the modified
  map with \<open>get_stock_map(key, force_vanilla)\<close>, where \<open>force_vanilla\<close> is true exactly
  when no object of the modified map has \<open>IsHardModeActor\<close> or \<open>AoC_HardMode_Enabled\<close>
  in its text. So a map that carries a hard-mode marker is compared with the DLC baseline when
  there is one: the entry in \<open>AocMainField.pack\<close>, else the loose DLC file, else the file of
  the update or game directory, else the entry in \<open>TitleBG.pack\<close>. A map without a marker
  (and any map when the DLC directory is missing) is compared with the vanilla baseline: the
  update directory's file, else the game directory's, else the entry in \<open>TitleBG.pack\<close>.
\<close>

theorem get_map_diff_baseline:
  "(get_map_diff st fs L (BaseMap u) mod_map no_del link_del =
      (case get_stock_map st fs L u
              (\<not> (\<exists>obj \<in> set (Objs mod_map).
                     str_in ''IsHardModeActor'' (str L obj)
                     \<or> str_in ''AoC_HardMode_Enabled'' (str L obj))) of
         Inl e \<Rightarrow> Inl e
       | Inr base \<Rightarrow> Inr (map_diff base mod_map no_del link_del)))
   \<and> (aoc_dir st = None \<longrightarrow> get_stock_map st fs L u False = get_stock_map st fs L u True)
   \<and> (update_dir st = Some upd \<and> fs (join upd (smubin_path u)) = Some b \<and> b \<noteq> []
        \<longrightarrow> get_stock_map st fs L u True = Inr (parse L (decompress L b)))
   \<and> (update_dir st = Some upd \<and> fs (join upd (smubin_path u)) = None
        \<and> game_dir st = Some game \<and> fs (join game (smubin_path u)) = Some b \<and> b \<noteq> []
        \<longrightarrow> get_stock_map st fs L u True = Inr (parse L (decompress L b)))
   \<and> (vanilla_file st fs u = Inl FileNotFoundError
        \<longrightarrow> get_stock_map st fs L u True = load_map L (title_pack_map st fs L u))
   \<and> (aoc_dir st = Some aoc_d \<and> fs (join (join aoc_d ''Pack'') ''AocMainField.pack'') = Some pack_bytes
        \<and> read_file_and_make_sarc L pack_bytes = Some pack \<and> pack (smubin_path u) = Some b \<and> b \<noteq> []
        \<longrightarrow> get_stock_map st fs L u False = Inr (parse L (decompress L b)))
   \<and> (aoc_dir st = Some aoc_d \<and> not_bytes (aoc_pack_map fs L aoc_d u)
        \<and> get_game_file st fs (smubin_path u) True = Inr p \<and> fs p = Some b \<and> b \<noteq> []
        \<longrightarrow> get_stock_map st fs L u False = Inr (parse L (decompress L b)))
   \<and> (aoc_dir st = Some aoc_d \<and> not_bytes (aoc_pack_map fs L aoc_d u)
        \<and> get_game_file st fs (smubin_path u) True = Inl FileNotFoundError
        \<and> get_game_file st fs (smubin_path u) False = Inr p \<and> fs p = Some b \<and> b \<noteq> []
        \<longrightarrow> get_stock_map st fs L u False = Inr (parse L (decompress L b)))
   \<and> (aoc_dir st = Some aoc_d \<and> not_bytes (aoc_pack_map fs L aoc_d u)
        \<and> get_game_file st fs (smubin_path u) True = Inl FileNotFoundError
        \<and> get_game_file st fs (smubin_path u) False = Inl FileNotFoundError
        \<longrightarrow> get_stock_map st fs L u False = load_map L (title_pack_map st fs L u))"
proof -
  have flag: "get_map_diff st fs L (BaseMap u) mod_map no_del link_del =
      (case get_stock_map st fs L u
              (\<not> (\<exists>obj \<in> set (Objs mod_map).
                     str_in ''IsHardModeActor'' (str L obj)
                     \<or> str_in ''AoC_HardMode_Enabled'' (str L obj))) of
         Inl e \<Rightarrow> Inl e
       | Inr base \<Rightarrow> Inr (map_diff base mod_map no_del link_del))"
    by (simp add: get_map_diff_def resolve_base_map_def stock_map_iff)
  have no_aoc: "aoc_dir st = None \<longrightarrow> get_stock_map st fs L u False = get_stock_map st fs L u True"
    by (simp add: get_stock_map_def load_map_def stock_map_bytes_def)
  have v1: "update_dir st = Some upd \<and> fs (join upd (smubin_path u)) = Some b \<and> b \<noteq> []
        \<longrightarrow> get_stock_map st fs L u True = Inr (parse L (decompress L b))"
    by (simp add: get_stock_map_def load_map_def stock_map_bytes_def vanilla_map_def vanilla_file_def exists_def
        read_bytes_def not_bytes_def split: option.splits)
  have v2: "update_dir st = Some upd \<and> fs (join upd (smubin_path u)) = None
        \<and> game_dir st = Some game \<and> fs (join game (smubin_path u)) = Some b \<and> b \<noteq> []
        \<longrightarrow> get_stock_map st fs L u True = Inr (parse L (decompress L b))"
    by (simp add: get_stock_map_def load_map_def stock_map_bytes_def vanilla_map_def vanilla_file_def exists_def
        read_bytes_def not_bytes_def split: option.splits)
  have v3: "vanilla_file st fs u = Inl FileNotFoundError
        \<longrightarrow> get_stock_map st fs L u True = load_map L (title_pack_map st fs L u)"
    by (simp add: get_stock_map_def load_map_def stock_map_bytes_def vanilla_map_def load_map_def split: option.splits)
  have d1: "aoc_dir st = Some aoc_d \<and> fs (join (join aoc_d ''Pack'') ''AocMainField.pack'') = Some pack_bytes
        \<and> read_file_and_make_sarc L pack_bytes = Some pack \<and> pack (smubin_path u) = Some b \<and> b \<noteq> []
        \<longrightarrow> get_stock_map st fs L u False = Inr (parse L (decompress L b))"
    by (simp add: get_stock_map_def load_map_def stock_map_bytes_def aoc_map_def aoc_pack_map_def pack_entry_def
        not_bytes_def)
  have d2: "aoc_dir st = Some aoc_d \<and> not_bytes (aoc_pack_map fs L aoc_d u)
        \<and> get_game_file st fs (smubin_path u) True = Inr p \<and> fs p = Some b \<and> b \<noteq> []
        \<longrightarrow> get_stock_map st fs L u False = Inr (parse L (decompress L b))"
    by (simp add: get_stock_map_def load_map_def stock_map_bytes_def aoc_map_def game_file_map_def read_bytes_def
        not_bytes_def)
  have d3: "aoc_dir st = Some aoc_d \<and> not_bytes (aoc_pack_map fs L aoc_d u)
        \<and> get_game_file st fs (smubin_path u) True = Inl FileNotFoundError
        \<and> get_game_file st fs (smubin_path u) False = Inr p \<and> fs p = Some b \<and> b \<noteq> []
        \<longrightarrow> get_stock_map st fs L u False = Inr (parse L (decompress L b))"
    by (simp add: get_stock_map_def load_map_def stock_map_bytes_def aoc_map_def game_file_map_def read_bytes_def
        not_bytes_def)
  have d4: "aoc_dir st = Some aoc_d \<and> not_bytes (aoc_pack_map fs L aoc_d u)
        \<and> get_game_file st fs (smubin_path u) True = Inl FileNotFoundError
        \<and> get_game_file st fs (smubin_path u) False = Inl FileNotFoundError
        \<longrightarrow> get_stock_map st fs L u False = load_map L (title_pack_map st fs L u)"
    by (simp add: get_stock_map_def load_map_def stock_map_bytes_def aoc_map_def game_file_map_def load_map_def)
  from flag no_aoc v1 v2 v3 d1 d2 d3 d4 show ?thesis by blast
qed

theorem get_map_diff_baseline_witness:
  "get_map_diff ex_settings ex_files ex_lib (BaseMap ex_unit) dlc_doc False False
     = Inr \<lparr>add = [], mod_entries = [], del = []\<rparr>
   \<and> get_map_diff ex_settings ex_files ex_lib (BaseMap ex_unit) vanilla_doc False False
     = Inr \<lparr>add = [], mod_entries = [], del = []\<rparr>
   \<and> get_stock_map (ex_settings\<lparr>aoc_dir := None\<rparr>) ex_files ex_lib ex_unit False
     = get_stock_map (ex_settings\<lparr>aoc_dir := None\<rparr>) ex_files ex_lib ex_unit True
   \<and> get_stock_map ex_settings ex_files ex_lib ex_unit True = Inr vanilla_doc
   \<and> get_stock_map ex_settings loose_files ex_lib ex_unit True = Inr vanilla_doc
   \<and> get_stock_map ex_settings title_files ex_lib ex_unit True = Inr dlc_doc
   \<and> get_stock_map ex_settings ex_files ex_lib ex_unit False = Inr dlc_doc
   \<and> get_stock_map ex_settings loose_files ex_lib ex_unit False = Inr dlc_doc
   \<and> get_stock_map ex_settings update_files ex_lib ex_unit False = Inr vanilla_doc
   \<and> get_stock_map ex_settings title_files ex_lib ex_unit False = Inr dlc_doc"
proof -
  note flag = get_map_diff_baseline[THEN conjunct1]
  note rest1 = get_map_diff_baseline[THEN conjunct2]
  note no_aoc = rest1[THEN conjunct1, rule_format]
  note rest2 = rest1[THEN conjunct2]
  note v1 = rest2[THEN conjunct1, rule_format]
  note rest3 = rest2[THEN conjunct2]
  note v2 = rest3[THEN conjunct1, rule_format]
  note rest4 = rest3[THEN conjunct2]
  note v3 = rest4[THEN conjunct1, rule_format]
  note rest5 = rest4[THEN conjunct2]
  note d1 = rest5[THEN conjunct1, rule_format]
  note rest6 = rest5[THEN conjunct2]
  note d2 = rest6[THEN conjunct1, rule_format]
  note rest7 = rest6[THEN conjunct2]
  note d3 = rest7[THEN conjunct1, rule_format]
  note d4 = rest7[THEN conjunct2, rule_format]
  have a: "get_stock_map (ex_settings\<lparr>aoc_dir := None\<rparr>) ex_files ex_lib ex_unit False
     = get_stock_map (ex_settings\<lparr>aoc_dir := None\<rparr>) ex_files ex_lib ex_unit True"
    by (rule no_aoc) simp
  have b: "get_stock_map ex_settings ex_files ex_lib ex_unit True = Inr vanilla_doc"
    using v1[of ex_settings "''update''" ex_files ex_unit "''vanilla''" ex_lib]
    by (simp add: ex_settings_def ex_files_def join_def ex_smubin_path ex_parse)
  have c: "get_stock_map ex_settings loose_files ex_lib ex_unit True = Inr vanilla_doc"
    using v2[of ex_settings "''update''" loose_files ex_unit "''game''" "''vanilla''" ex_lib]
    by (simp add: ex_settings_def loose_files_def join_def ex_smubin_path ex_parse)
  have "vanilla_file ex_settings title_files ex_unit = Inl FileNotFoundError"
    by (simp add: vanilla_file_def ex_settings_def title_files_def exists_def read_bytes_def
        join_def ex_smubin_path)
  from v3[OF this, of ex_lib]
  have d: "get_stock_map ex_settings title_files ex_lib ex_unit True = Inr dlc_doc"
    by (simp add: ex_title_pack load_map_def not_bytes_def ex_parse)
  have e: "get_stock_map ex_settings ex_files ex_lib ex_unit False = Inr dlc_doc"
    using d1[of ex_settings "''aoc''" ex_files "''SARC''" ex_lib ex_pack ex_unit "''dlc''"]
    by (simp add: ex_settings_def ex_files_def join_def ex_smubin_path ex_parse ex_lib_def
        ex_pack_def)
  have np: "not_bytes (aoc_pack_map loose_files ex_lib ''aoc'' ex_unit)"
    "not_bytes (aoc_pack_map update_files ex_lib ''aoc'' ex_unit)"
    "not_bytes (aoc_pack_map title_files ex_lib ''aoc'' ex_unit)"
    by (simp_all add: not_bytes_def aoc_pack_map_def loose_files_def update_files_def
        title_files_def join_def)
  have f: "get_stock_map ex_settings loose_files ex_lib ex_unit False = Inr dlc_doc"
    using d2[of ex_settings "''aoc''" loose_files ex_lib ex_unit
        "''aoc/Map/MainField/A-1/A-1_Dynamic.smubin''" "''dlc''"] np(1) ex_game_file_aoc
    by (simp add: ex_settings_def loose_files_def ex_parse)
  have g: "get_stock_map ex_settings update_files ex_lib ex_unit False = Inr vanilla_doc"
    using d3[of ex_settings "''aoc''" update_files ex_lib ex_unit
        "''update/Map/MainField/A-1/A-1_Dynamic.smubin''" "''vanilla''"] np(2) ex_game_file_update
    by (simp add: ex_settings_def update_files_def ex_parse)
  have h: "get_stock_map ex_settings title_files ex_lib ex_unit False = Inr dlc_doc"
    using d4[of ex_settings "''aoc''" title_files ex_lib ex_unit] np(3) ex_game_file_title
      ex_title_pack ex_aoc_dir
    by (simp add: load_map_def not_bytes_def ex_parse)
  have m1: "(\<exists>obj \<in> set (Objs dlc_doc). str_in ''IsHardModeActor'' (str ex_lib obj)
              \<or> str_in ''AoC_HardMode_Enabled'' (str ex_lib obj))"
    by (simp add: dlc_doc_def ex_lib_def hard_obj_def)
  have m2: "\<not> (\<exists>obj \<in> set (Objs vanilla_doc). str_in ''IsHardModeActor'' (str ex_lib obj)
              \<or> str_in ''AoC_HardMode_Enabled'' (str ex_lib obj))"
    by (simp add: vanilla_doc_def ex_lib_def plain_obj_def)
  have d_dlc: "map_diff dlc_doc dlc_doc False False = \<lparr>add = [], mod_entries = [], del = []\<rparr>"
    by (simp add: map_diff_def dlc_doc_def base_links_def obj_links_def plain_obj_def hard_obj_def)
  have d_van: "map_diff vanilla_doc vanilla_doc False False = \<lparr>add = [], mod_entries = [], del = []\<rparr>"
    by (simp add: map_diff_def vanilla_doc_def base_links_def obj_links_def plain_obj_def)
  have i: "get_map_diff ex_settings ex_files ex_lib (BaseMap ex_unit) dlc_doc False False
     = Inr \<lparr>add = [], mod_entries = [], del = []\<rparr>"
    using flag[of ex_settings ex_files ex_lib ex_unit dlc_doc False False] m1 e d_dlc by simp
  have j: "get_map_diff ex_settings ex_files ex_lib (BaseMap ex_unit) vanilla_doc False False
     = Inr \<lparr>add = [], mod_entries = [], del = []\<rparr>"
    using flag[of ex_settings ex_files ex_lib ex_unit vanilla_doc False False] m2 b d_van by simp
  from a b c d e f g h i j show ?thesis by simp
qed

text \<open>The claim as written fails in both directions. The modified map \<open>dlc_doc\<close> has a
  hard-mode object, and is compared with the DLC map (no difference), not with the vanilla
  map (against which the hard-mode object would be an addition). The modified map
  \<open>vanilla_doc\<close> has no marker, and is compared with the vanilla map (no difference)
  although the DLC map is there (against which object 2 would be a deletion).\<close>

theorem get_map_diff_baseline_counterexample:
  "get_map_diff ex_settings ex_files ex_lib (BaseMap ex_unit) dlc_doc False False
     = Inr \<lparr>add = [], mod_entries = [], del = []\<rparr>
   \<and> get_map_diff ex_settings ex_files ex_lib (BaseDoc vanilla_doc) dlc_doc False False
     = Inr \<lparr>add = [hard_obj], mod_entries = [], del = []\<rparr>
   \<and> get_map_diff ex_settings ex_files ex_lib (BaseMap ex_unit) vanilla_doc False False
     = Inr \<lparr>add = [], mod_entries = [], del = []\<rparr>
   \<and> get_map_diff ex_settings ex_files ex_lib (BaseDoc dlc_doc) vanilla_doc False False
     = Inr \<lparr>add = [], mod_entries = [], del = [2]\<rparr>
   \<and> get_stock_map ex_settings ex_files ex_lib ex_unit True = Inr vanilla_doc
   \<and> get_stock_map ex_settings ex_files ex_lib ex_unit False = Inr dlc_doc"
proof -
  have dlc: "get_stock_map ex_settings ex_files ex_lib ex_unit False = Inr dlc_doc"
    by (simp add: get_stock_map_def load_map_def stock_map_bytes_def ex_settings_def aoc_map_def
        aoc_pack_map_def join_def ex_files_def pack_entry_def ex_lib_def ex_pack_def
        ex_smubin_path not_bytes_def)
  have van: "get_stock_map ex_settings ex_files ex_lib ex_unit True = Inr vanilla_doc"
    by (simp add: get_stock_map_def load_map_def stock_map_bytes_def ex_settings_def
        vanilla_map_def vanilla_file_def join_def ex_files_def exists_def read_bytes_def
        ex_lib_def ex_smubin_path not_bytes_def)
  have f1: "stock_map (str ex_lib) (Objs dlc_doc) = False"
    by (simp add: dlc_doc_def ex_lib_def plain_obj_def hard_obj_def)
  have f2: "stock_map (str ex_lib) (Objs vanilla_doc) = True"
    by (simp add: vanilla_doc_def ex_lib_def plain_obj_def)
  have d1: "map_diff dlc_doc dlc_doc False False = \<lparr>add = [], mod_entries = [], del = []\<rparr>"
    by (simp add: map_diff_def dlc_doc_def base_links_def obj_links_def plain_obj_def hard_obj_def)
  have d2: "map_diff vanilla_doc dlc_doc False False
              = \<lparr>add = [hard_obj], mod_entries = [], del = []\<rparr>"
    by (simp add: map_diff_def dlc_doc_def vanilla_doc_def base_links_def obj_links_def
        plain_obj_def hard_obj_def)
  have d3: "map_diff vanilla_doc vanilla_doc False False
              = \<lparr>add = [], mod_entries = [], del = []\<rparr>"
    by (simp add: map_diff_def vanilla_doc_def base_links_def obj_links_def plain_obj_def)
  have d4: "map_diff dlc_doc vanilla_doc False False
              = \<lparr>add = [], mod_entries = [], del = [2]\<rparr>"
    by (simp add: map_diff_def dlc_doc_def vanilla_doc_def base_links_def obj_links_def
        plain_obj_def hard_obj_def)
  from dlc van f1 f2 d1 d2 d3 d4 show ?thesis
    by (simp add: get_map_diff_def resolve_base_map_def)
qed

subsection \<open>The merged object list\<close>

text \<open>The loop over the modifications keeps the length of the object list and, when
  every entry is keyed by the \<open>HashId\<close> of its actor, the \<open>HashId\<close> at every position.\<close>

lemma apply_mods_length: "length (fst (apply_mods sh (objs, adds) es)) = length objs"
  by (induction es arbitrary: objs adds) (auto split: option.splits)

lemma apply_mods_adds:
  "snd (apply_mods sh (objs, adds) es) = adds @ map snd (filter (\<lambda>e. fst e \<notin> set sh) es)"
  by (induction es arbitrary: objs adds) (auto split: option.splits simp: index_None_iff dest: index_Some_nth)

lemma apply_mods_objs: "fst (apply_mods sh (objs, adds) es) = fst (apply_mods sh (objs, adds') es)"
proof (induction es arbitrary: objs adds adds')
  case Nil
  then show ?case by simp
next
  case (Cons e es)
  obtain k a where e: "e = (k, a)" by (cases e)
  show ?case
  proof (cases "index sh k")
    case None
    with e Cons.IH[of objs "adds @ [a]" "adds' @ [a]"] show ?thesis by simp
  next
    case (Some i)
    with e Cons.IH[of "objs[i := a]" adds adds'] show ?thesis by simp
  qed
qed

lemma apply_mods_ids:
  assumes "map HashId objs = sh" and "\<forall>e \<in> set es. HashId (snd e) = fst e"
  shows "map HashId (fst (apply_mods sh (objs, adds) es)) = sh"
  using assms
proof (induction es arbitrary: objs adds)
  case Nil
  then show ?case by simp
next
  case (Cons e es)
  obtain k a where e: "e = (k, a)" by (cases e)
  show ?case
  proof (cases "index sh k")
    case None
    with Cons e show ?thesis by simp
  next
    case (Some i)
    then have i: "i < length sh" "sh ! i = k" using index_Some_nth by fastforce+
    have "HashId a = k" using Cons.prems(2) e by simp
    with i Cons.prems(1) have "map HashId (objs[i := a]) = sh"
      by (metis list_update_id map_update)
    with Cons e Some show ?thesis by simp
  qed
qed

text \<open>The deletion loop only removes objects.\<close>

lemma distinct_map_pop:
  "distinct (map f xs) \<Longrightarrow> distinct (map f (take i xs @ drop (Suc i) xs))"
proof -
  assume d: "distinct (map f xs)"
  have "set (take i (map f xs)) \<inter> set (drop (Suc i) (map f xs)) = {}"
    by (rule set_take_disj_set_drop_if_distinct[OF d]) simp
  with d show ?thesis by (simp add: take_map drop_map[symmetric] flip: take_map)
qed

lemma distinct_map_remove1: "distinct (map f xs) \<Longrightarrow> distinct (map f (remove1 x xs))"
proof (induction xs)
  case Nil
  then show ?case by simp
next
  case (Cons a xs)
  have "f a \<notin> f ` set (remove1 x xs)"
    using Cons.prems set_remove1_subset[of x xs] by auto
  with Cons show ?case by auto
qed

lemma set_pop_subset: "set (take i xs @ drop (Suc i) xs) \<subseteq> set xs"
  by (auto dest: in_set_takeD in_set_dropD)

lemma delete_actor_cases:
  obtains (same) "delete_actor sh objs d = objs"
  | (popped) i where "delete_actor sh objs d = take i objs @ drop (Suc i) objs"
  | (removed) x where "delete_actor sh objs d = remove1 x objs"
proof (cases "d \<in> set sh")
  case False
  then show ?thesis using same by (simp add: delete_actor_def)
next
  case True
  show ?thesis
  proof (cases "the (index sh d) < length objs")
    case True
    with \<open>d \<in> set sh\<close> show ?thesis using popped by (simp add: delete_actor_def pop_def)
  next
    case False
    show ?thesis
    proof (cases "filter (\<lambda>actor. HashId actor = d) objs")
      case Nil
      with False \<open>d \<in> set sh\<close> show ?thesis using same by (simp add: delete_actor_def pop_def)
    next
      case (Cons x xs)
      with False \<open>d \<in> set sh\<close> show ?thesis using removed by (simp add: delete_actor_def pop_def)
    qed
  qed
qed

lemma delete_actor_distinct:
  assumes "distinct (map HashId objs)"
  shows "distinct (map HashId (delete_actor sh objs d))"
proof (cases rule: delete_actor_cases[of sh objs d])
  case same
  with assms show ?thesis by simp
next
  case (popped i)
  with distinct_map_pop[OF assms, of i] show ?thesis by simp
next
  case (removed x)
  with distinct_map_remove1[OF assms, of x] show ?thesis by simp
qed

lemma delete_actor_subset: "set (delete_actor sh objs d) \<subseteq> set objs"
proof (cases rule: delete_actor_cases[of sh objs d])
  case same
  then show ?thesis by simp
next
  case (popped i)
  with set_pop_subset[of i objs] show ?thesis by simp
next
  case (removed x)
  with set_remove1_subset[of x objs] show ?thesis by simp
qed

lemma delete_actors_subset: "set (delete_actors sh objs ds) \<subseteq> set objs"
proof (induction ds arbitrary: objs)
  case Nil
  then show ?case by simp
next
  case (Cons d ds)
  from Cons.IH[of "delete_actor sh objs d"] delete_actor_subset[of sh objs d]
  show ?case by auto
qed

lemma delete_actors_distinct:
  "distinct (map HashId objs) \<Longrightarrow> distinct (map HashId (delete_actors sh objs ds))"
  by (induction ds arbitrary: objs) (auto simp: delete_actor_distinct)

lemma delete_actors_append:
  "delete_actors sh objs (xs @ ys) = delete_actors sh (delete_actors sh objs xs) ys"
  by (induction xs arbitrary: objs) auto

lemma merge_objs_eq:
  "merge_objs stock_objs changes no_del =
     sort_key HashId
       ((if \<not> no_del
         then delete_actors (map HashId stock_objs)
                (fst (apply_mods (map HashId stock_objs) (stock_objs, []) (mod_entries changes)))
                (sorted_reverse (del_key (map HashId stock_objs)) (del changes))
         else fst (apply_mods (map HashId stock_objs) (stock_objs, []) (mod_entries changes)))
        @ filter (\<lambda>change. HashId change \<notin> HashId ` set stock_objs)
            (add changes @ map snd (filter (\<lambda>e. fst e \<notin> HashId ` set stock_objs) (mod_entries changes))))"
  unfolding merge_objs_def Let_def
  using apply_mods_objs[of "map HashId stock_objs" stock_objs "add changes" "mod_entries changes" "[]"]
  by (simp add: apply_mods_adds)

lemma sorted_merge_objs: "sorted (map HashId (merge_objs stock_objs changes no_del))"
  by (simp add: merge_objs_def Let_def)

lemma distinct_map_sort_key:
  "distinct (map f (sort_key f xs)) \<longleftrightarrow> distinct (map f xs)"
  by (simp add: distinct_map)

lemma modded_ids:
  assumes "\<forall>e \<in> set (mod_entries changes). HashId (snd e) = fst e"
  shows "map HashId (fst (apply_mods (map HashId stock_objs) (stock_objs, []) (mod_entries changes)))
           = map HashId stock_objs"
  by (rule apply_mods_ids[OF refl assms])

lemma deleted_ids_subset:
  "HashId ` set (delete_actors sh objs ds) \<subseteq> HashId ` set objs"
  using delete_actors_subset[of sh objs ds] by blast

lemma strict_merge_objs:
  assumes "distinct (map HashId stock_objs)"
    and "\<forall>e \<in> set (mod_entries changes). HashId (snd e) = fst e"
    and "distinct (map HashId (add changes
            @ map snd (filter (\<lambda>e. fst e \<notin> HashId ` set stock_objs) (mod_entries changes))))"
  shows "sorted_wrt (<) (map HashId (merge_objs stock_objs changes no_del))"
proof -
  let ?sh = "map HashId stock_objs"
  let ?M = "fst (apply_mods ?sh (stock_objs, []) (mod_entries changes))"
  let ?D = "if \<not> no_del then delete_actors ?sh ?M (sorted_reverse (del_key ?sh) (del changes)) else ?M"
  let ?A = "add changes @ map snd (filter (\<lambda>e. fst e \<notin> HashId ` set stock_objs) (mod_entries changes))"
  let ?F = "filter (\<lambda>change. HashId change \<notin> HashId ` set stock_objs) ?A"
  have M: "map HashId ?M = ?sh" by (rule modded_ids[OF assms(2)])
  then have dM: "distinct (map HashId ?M)" using assms(1) by simp
  have dD: "distinct (map HashId ?D)"
    using dM by (simp add: delete_actors_distinct)
  have "HashId ` set ?M = HashId ` set stock_objs"
    using M by (metis list.set_map)
  then have sD: "HashId ` set ?D \<subseteq> HashId ` set stock_objs"
    using deleted_ids_subset[of ?sh ?M] by auto
  have dF: "distinct (map HashId ?F)"
    using assms(3) by (rule distinct_map_filter)
  have sF: "HashId ` set ?F \<inter> HashId ` set stock_objs = {}" by auto
  have "distinct (map HashId (?D @ ?F))"
    using dD dF sD sF by (simp only: map_append distinct_append list.set_map) blast
  then have "distinct (map HashId (merge_objs stock_objs changes no_del))"
    unfolding merge_objs_eq distinct_map_sort_key .
  with sorted_merge_objs[of stock_objs changes no_del] show ?thesis
    by (simp add: strict_sorted_iff)
qed

lemma set_sorted_reverse: "set (sorted_reverse key xs) = set xs"
  by (simp add: sorted_reverse_def)

lemma sorted_sorted_reverse: "sorted (rev (map key (sorted_reverse key xs)))"
  by (simp add: sorted_reverse_def rev_map)

lemma before_ge:
  assumes "sorted (rev (map key (pre @ h # post)))" and "p \<in> set pre"
  shows "key h \<le> key p"
  using assms by (auto simp: sorted_append)

lemma nth_notin_take:
  assumes "distinct xs" and "j < length xs" and "n \<le> j"
  shows "xs ! j \<notin> set (take n xs)"
proof
  assume "xs ! j \<in> set (take n xs)"
  then obtain k where k: "k < length (take n xs)" "take n xs ! k = xs ! j"
    by (auto simp: in_set_conv_nth)
  then have "k < n" "k < length xs" "xs ! k = xs ! j" by auto
  with assms have "k = j" by (simp add: nth_eq_iff_index_eq)
  with \<open>k < n\<close> assms(3) show False by simp
qed

lemma nth_notin_pop:
  assumes "distinct ys" and "i < length ys"
  shows "ys ! i \<notin> set (take i ys @ drop (Suc i) ys)"
proof -
  have "ys = take i ys @ ys ! i # drop (Suc i) ys"
    using assms(2) by (rule id_take_nth_drop)
  then have "distinct (take i ys @ ys ! i # drop (Suc i) ys)"
    using assms(1) by simp
  then show ?thesis by simp
qed

lemma prefix_kept_step:
  assumes "distinct sh" and "index sh d = Some j" and "i < j" and "i < length objs"
    and "map HashId (take (Suc i) objs) = take (Suc i) sh"
  shows "take (Suc i) (delete_actor sh objs d) = take (Suc i) objs"
proof -
  from index_Some_nth[OF assms(2)] have j: "j < length sh" "sh ! j = d" by auto
  then have d: "d \<in> set sh" by auto
  show ?thesis
  proof (cases "j < length objs")
    case True
    with d assms(2,3) show ?thesis
      by (simp add: delete_actor_def pop_def min_def)
  next
    case False
    show ?thesis
    proof (cases "filter (\<lambda>actor. HashId actor = d) objs")
      case Nil
      with False d assms(2) show ?thesis by (simp add: delete_actor_def pop_def)
    next
      case (Cons x others)
      then have "x \<in> set (filter (\<lambda>actor. HashId actor = d) objs)" by simp
      then have x: "HashId x = d" by simp
      have "d \<notin> set (take (Suc i) sh)"
        using nth_notin_take[OF assms(1) j(1), of "Suc i"] assms(3) j(2) by simp
      then have "HashId x \<notin> set (map HashId (take (Suc i) objs))"
        using x assms(5) by simp
      then have nx: "x \<notin> set (take (Suc i) objs)" by auto
      have "remove1 x objs = remove1 x (take (Suc i) objs @ drop (Suc i) objs)" by simp
      also have "\<dots> = take (Suc i) objs @ remove1 x (drop (Suc i) objs)"
        using nx by (simp only: remove1_append if_False)
      finally have "take (Suc i) (remove1 x objs) = take (Suc i) objs"
        using assms(4) by simp
      with Cons False d assms(2) show ?thesis by (simp add: delete_actor_def pop_def)
    qed
  qed
qed

lemma prefix_kept:
  assumes "distinct sh" and "i < length objs"
    and "map HashId (take (Suc i) objs) = take (Suc i) sh"
    and "\<forall>d \<in> set pre. \<exists>j. index sh d = Some j \<and> i < j"
  shows "take (Suc i) (delete_actors sh objs pre) = take (Suc i) objs"
  using assms(2-4)
proof (induction pre arbitrary: objs)
  case Nil
  then show ?case by simp
next
  case (Cons d pre)
  from Cons.prems(3) obtain j where j: "index sh d = Some j" "i < j" by auto
  have step: "take (Suc i) (delete_actor sh objs d) = take (Suc i) objs"
    by (rule prefix_kept_step[OF assms(1) j Cons.prems(1,2)])
  have "length (take (Suc i) (delete_actor sh objs d)) = Suc i"
    using step Cons.prems(1) by simp
  then have len: "i < length (delete_actor sh objs d)" by simp
  have ids: "map HashId (take (Suc i) (delete_actor sh objs d)) = take (Suc i) sh"
    using step Cons.prems(2) by simp
  have rest: "\<forall>d \<in> set pre. \<exists>j. index sh d = Some j \<and> i < j"
    using Cons.prems(3) by simp
  from Cons.IH[OF len ids rest] step show ?case by simp
qed

lemma delete_actors_removes:
  assumes "distinct sh" and "map HashId objs = sh" and "h \<in> set sh" and "h \<in> set ds"
    and "sorted (rev (map (del_key sh) ds))"
  shows "h \<notin> HashId ` set (delete_actors sh objs ds)"
proof -
  from index_in_set[OF assms(3)] obtain i where i: "index sh h = Some i" by blast
  from index_Some_nth[OF i] have il: "i < length sh" "sh ! i = h" by auto
  have kh: "del_key sh h = int i" using assms(3) i by (simp add: del_key_def)
  from split_list_first[OF assms(4)] obtain pre post where
    ds: "ds = pre @ h # post" and hpre: "h \<notin> set pre" by blast
  have pre: "\<forall>d \<in> set pre. \<exists>j. index sh d = Some j \<and> i < j"
  proof
    fix d assume d: "d \<in> set pre"
    from before_ge[of "del_key sh" pre h post d] assms(5) ds d
    have ge: "int i \<le> del_key sh d" using kh by simp
    then have din: "d \<in> set sh" by (auto simp: del_key_def split: if_splits)
    from index_in_set[OF din] obtain j where j: "index sh d = Some j" by blast
    with ge din have "i \<le> j" by (simp add: del_key_def)
    moreover have "i \<noteq> j"
    proof
      assume "i = j"
      with index_Some_nth[OF j] il have "d = h" by simp
      with d hpre show False by simp
    qed
    ultimately show "\<exists>j. index sh d = Some j \<and> i < j" using j by auto
  qed
  let ?objs1 = "delete_actors sh objs pre"
  have io: "i < length objs" using assms(2) il by auto
  have tk: "take (Suc i) ?objs1 = take (Suc i) objs"
    by (rule prefix_kept[OF assms(1) io _ pre]) (simp add: assms(2)[symmetric] take_map)
  have "length (take (Suc i) ?objs1) = Suc i" using tk io by simp
  then have i1: "i < length ?objs1" by simp
  have d1: "distinct (map HashId ?objs1)"
    using assms(1,2) by (simp add: delete_actors_distinct)
  have "?objs1 ! i = take (Suc i) ?objs1 ! i" by simp
  also have "\<dots> = objs ! i" using tk by simp
  finally have "HashId (?objs1 ! i) = h" using assms(2) il io by (metis nth_map)
  then have hi: "map HashId ?objs1 ! i = h" using i1 by simp
  let ?objs2 = "take i ?objs1 @ drop (Suc i) ?objs1"
  have step: "delete_actor sh ?objs1 h = ?objs2"
    using assms(3) i i1 by (simp add: delete_actor_def pop_def)
  have "h \<notin> set (take i (map HashId ?objs1) @ drop (Suc i) (map HashId ?objs1))"
    using nth_notin_pop[OF d1] i1 hi by (metis length_map)
  then have h2: "h \<notin> HashId ` set ?objs2"
    by (simp add: take_map drop_map image_Un)
  have "delete_actors sh objs ds = delete_actors sh ?objs2 post"
    by (simp add: ds delete_actors_append step)
  with deleted_ids_subset[of sh ?objs2 post] h2 show ?thesis by auto
qed

text \<open>
  C5 (amended). The object list \<open>merge_map\<close> produces is ascending by \<open>HashId\<close> for
  every baseline and every consolidated diff. It is strictly ascending, with no two objects
  of one \<open>HashId\<close>, when the baseline's \<open>HashId\<close>s are distinct, every entry of
  \<open>mod\<close> is keyed by the \<open>HashId\<close> of its actor, and the actors of \<open>add\<close>
  together with the actors of the \<open>mod\<close> entries whose key the baseline lacks have
  distinct \<open>HashId\<close>s.
\<close>

theorem merge_map_sorted:
  "sorted (map HashId (merge_objs stock_objs changes no_del))
   \<and> (distinct (map HashId stock_objs)
        \<and> (\<forall>e \<in> set (mod_entries changes). HashId (snd e) = fst e)
        \<and> distinct (map HashId (add changes
              @ map snd (filter (\<lambda>e. fst e \<notin> HashId ` set stock_objs) (mod_entries changes))))
      \<longrightarrow> sorted_wrt (<) (map HashId (merge_objs stock_objs changes no_del)))"
  using sorted_merge_objs[of stock_objs changes no_del]
    strict_merge_objs[of stock_objs changes no_del]
  by blast

theorem merge_map_sorted_witness:
  "distinct (map HashId [obj_1a, obj_2b])
   \<and> HashId (snd (2::int, obj_2B)) = fst (2::int, obj_2B)
   \<and> distinct (map HashId [obj_3c])
   \<and> merge_objs [obj_1a, obj_2b] \<lparr>add = [obj_3c], mod_entries = [(2, obj_2B)], del = [1]\<rparr> False
       = [obj_2B, obj_3c]
   \<and> sorted_wrt (<) (map HashId
        (merge_objs [obj_1a, obj_2b] \<lparr>add = [obj_3c], mod_entries = [(2, obj_2B)], del = [1]\<rparr> False))"
proof -
  have d: "distinct (map HashId [obj_1a, obj_2b])"
    by (simp add: obj_1a_def obj_2b_def)
  have k: "HashId (snd (2::int, obj_2B)) = fst (2::int, obj_2B)"
    by (simp add: obj_2B_def)
  have v: "merge_objs [obj_1a, obj_2b]
             \<lparr>add = [obj_3c], mod_entries = [(2, obj_2B)], del = [1]\<rparr> False = [obj_2B, obj_3c]"
    by (simp add: merge_objs_def sorted_reverse_def del_key_def delete_actor_def pop_def
        obj_1a_def obj_2b_def obj_2B_def obj_3c_def)
  have "sorted_wrt (<) (map HashId
        (merge_objs [obj_1a, obj_2b] \<lparr>add = [obj_3c], mod_entries = [(2, obj_2B)], del = [1]\<rparr> False))"
    using merge_map_sorted[of "[obj_1a, obj_2b]"
        "\<lparr>add = [obj_3c], mod_entries = [(2, obj_2B)], del = [1]\<rparr>" False] d k
    by (simp add: obj_1a_def obj_2b_def obj_2B_def obj_3c_def)
  with d k v show ?thesis by simp
qed

text \<open>The claim as written fails: a \<open>mod\<close> entry whose key the baseline lacks is moved to
  the \<open>add\<close> list without a look at what that list holds, so an actor added under the same
  \<open>HashId\<close> appears beside it.\<close>

theorem merge_map_sorted_counterexample:
  "merge_objs [obj_1a] \<lparr>add = [actor_5X], mod_entries = [(5, actor_5Y)], del = []\<rparr> False
     = [obj_1a, actor_5X, actor_5Y]
   \<and> \<not> sorted_wrt (<) (map HashId
        (merge_objs [obj_1a] \<lparr>add = [actor_5X], mod_entries = [(5, actor_5Y)], del = []\<rparr> False))"
proof -
  have v: "merge_objs [obj_1a] \<lparr>add = [actor_5X], mod_entries = [(5, actor_5Y)], del = []\<rparr> False
     = [obj_1a, actor_5X, actor_5Y]"
    by (simp add: merge_objs_def sorted_reverse_def obj_1a_def actor_5X_def actor_5Y_def)
  show ?thesis unfolding v by (simp add: obj_1a_def actor_5X_def actor_5Y_def)
qed

text \<open>
  C6 (amended). A record of the \<open>add\<close> list whose \<open>HashId\<close> the baseline has is skipped:
  the merged object list is the one the same diff without that record gives. The record is
  not appended, and it does not replace the baseline's object either.
\<close>

theorem merge_map_skips_known_add:
  assumes "HashId r \<in> HashId ` set stock_objs"
  shows "merge_objs stock_objs (changes\<lparr>add := xs @ r # ys\<rparr>) no_del
           = merge_objs stock_objs (changes\<lparr>add := xs @ ys\<rparr>) no_del"
  using assms by (simp add: merge_objs_eq)

theorem merge_map_skips_known_add_witness:
  "HashId obj_2B \<in> HashId ` set [obj_1a, obj_2b]
   \<and> merge_objs [obj_1a, obj_2b]
        (\<lparr>add = [], mod_entries = [], del = []\<rparr>\<lparr>add := [] @ obj_2B # []\<rparr>) False
       = merge_objs [obj_1a, obj_2b]
           (\<lparr>add = [], mod_entries = [], del = []\<rparr>\<lparr>add := [] @ []\<rparr>) False
   \<and> merge_objs [obj_1a, obj_2b] \<lparr>add = [], mod_entries = [], del = []\<rparr> False
       = [obj_1a, obj_2b]"
proof -
  have h: "HashId obj_2B \<in> HashId ` set [obj_1a, obj_2b]"
    by (simp add: obj_1a_def obj_2b_def obj_2B_def)
  have v: "merge_objs [obj_1a, obj_2b] \<lparr>add = [], mod_entries = [], del = []\<rparr> False
       = [obj_1a, obj_2b]"
    by (simp add: merge_objs_def sorted_reverse_def obj_1a_def obj_2b_def)
  from merge_map_skips_known_add[OF h,
      where changes = "\<lparr>add = [], mod_entries = [], del = []\<rparr>" and xs = "[]" and ys = "[]"
        and no_del = False]
    h v show ?thesis by simp
qed

text \<open>The claim as written fails: the record added under the baseline's \<open>HashId\<close> 2 is
  dropped and the baseline's object stays; had it been treated as a \<open>mod\<close> entry, it would
  have replaced that object.\<close>

theorem merge_map_known_add_counterexample:
  "merge_objs [obj_1a, obj_2b] \<lparr>add = [obj_2B], mod_entries = [], del = []\<rparr> False
     = [obj_1a, obj_2b]
   \<and> merge_objs [obj_1a, obj_2b] \<lparr>add = [], mod_entries = [(2, obj_2B)], del = []\<rparr> False
     = [obj_1a, obj_2B]
   \<and> obj_2b \<noteq> obj_2B"
  by (simp add: merge_objs_def sorted_reverse_def obj_1a_def obj_2b_def obj_2B_def)

text \<open>
  C10. The baseline's \<open>HashId\<close>s are distinct and every entry of \<open>mod\<close> is keyed by
  the \<open>HashId\<close> of its actor. With deletions enabled, when a \<open>HashId\<close> of the baseline
  is in \<open>del\<close> and is also the \<open>HashId\<close> of a record of \<open>add\<close>, the merged object
  list has no object of that \<open>HashId\<close>: the baseline's object is removed and the record
  is not appended.
\<close>

theorem merge_map_deletion_wins:
  assumes "distinct (map HashId stock_objs)"
    and "\<forall>e \<in> set (mod_entries changes). HashId (snd e) = fst e"
    and "h \<in> HashId ` set stock_objs" and "h \<in> set (del changes)"
    and "r \<in> set (add changes)" and "HashId r = h"
  shows "h \<notin> HashId ` set (merge_objs stock_objs changes False)
       \<and> r \<notin> set (merge_objs stock_objs changes False)"
proof -
  let ?sh = "map HashId stock_objs"
  let ?M = "fst (apply_mods ?sh (stock_objs, []) (mod_entries changes))"
  let ?ds = "sorted_reverse (del_key ?sh) (del changes)"
  have M: "map HashId ?M = ?sh" by (rule modded_ids[OF assms(2)])
  have D: "h \<notin> HashId ` set (delete_actors ?sh ?M ?ds)"
    by (rule delete_actors_removes[OF assms(1) M])
      (use assms(3,4) in \<open>simp_all add: set_sorted_reverse sorted_sorted_reverse\<close>)
  have "h \<notin> HashId ` set (merge_objs stock_objs changes False)"
  proof
    assume "h \<in> HashId ` set (merge_objs stock_objs changes False)"
    then obtain x where x: "x \<in> set (merge_objs stock_objs changes False)" "HashId x = h"
      by auto
    from x(1) have "x \<in> set (delete_actors ?sh ?M ?ds) \<or> HashId x \<notin> HashId ` set stock_objs"
      by (auto simp: merge_objs_eq)
    with x(2) D assms(3) show False by auto
  qed
  then show ?thesis using assms(6) by auto
qed

theorem merge_map_deletion_wins_witness:
  "distinct (map HashId [obj_1a, obj_2b])
   \<and> (2::int) \<in> HashId ` set [obj_1a, obj_2b] \<and> (2::int) \<in> set [2]
   \<and> obj_2B \<in> set [obj_2B] \<and> HashId obj_2B = 2
   \<and> merge_objs [obj_1a, obj_2b] \<lparr>add = [obj_2B], mod_entries = [], del = [2]\<rparr> False = [obj_1a]
   \<and> 2 \<notin> HashId ` set (merge_objs [obj_1a, obj_2b]
                          \<lparr>add = [obj_2B], mod_entries = [], del = [2]\<rparr> False)
   \<and> obj_2B \<notin> set (merge_objs [obj_1a, obj_2b]
                       \<lparr>add = [obj_2B], mod_entries = [], del = [2]\<rparr> False)"
proof -
  have d: "distinct (map HashId [obj_1a, obj_2b])"
    by (simp add: obj_1a_def obj_2b_def)
  have m: "\<forall>e \<in> set (mod_entries \<lparr>add = [obj_2B], mod_entries = [], del = [2::int]\<rparr>).
             HashId (snd e) = fst e"
    by simp
  have h: "(2::int) \<in> HashId ` set [obj_1a, obj_2b]"
    by (simp add: obj_1a_def obj_2b_def)
  have e: "(2::int) \<in> set (del \<lparr>add = [obj_2B], mod_entries = [], del = [2::int]\<rparr>)"
    by simp
  have r: "obj_2B \<in> set (add \<lparr>add = [obj_2B], mod_entries = [], del = [2::int]\<rparr>)"
    by simp
  have i: "HashId obj_2B = 2" by (simp add: obj_2B_def)
  have v: "merge_objs [obj_1a, obj_2b] \<lparr>add = [obj_2B], mod_entries = [], del = [2]\<rparr> False
             = [obj_1a]"
    by (simp add: merge_objs_def sorted_reverse_def del_key_def delete_actor_def pop_def
        obj_1a_def obj_2b_def obj_2B_def)
  from merge_map_deletion_wins[OF d m h e r i] d h i v show ?thesis by simp
qed

subsection \<open>\<open>perform_merge\<close>\<close>

lemma startswith_append_same: "startswith (a @ s) (a @ p) = startswith s p"
  by (induction a) auto

lemma master_paths:
  "\<not> startswith (aoc_pack_path st) (aoc_tree st @ ''/'')"
  "\<not> startswith (aoc_pack_path st) (content_tree st @ ''/'')"
  "\<not> startswith (rules_path st) (aoc_tree st @ ''/'')"
  "\<not> startswith (rules_path st) (content_tree st @ ''/'')"
  "aoc_pack_path st \<noteq> rules_path st"
  "log_path st \<noteq> rules_path st"
  "log_path st \<noteq> aoc_pack_path st"
  by (simp_all add: aoc_pack_path_def aoc_tree_def content_tree_def rules_path_def log_path_def
      master_dir_def get_modpack_dir_def join_def startswith_append_same)

lemma with_rules_eq:
  "with_rules st fs = (if fs (rules_path st) = None then fs(rules_path st \<mapsto> rules_txt) else fs)"
  by (simp add: with_rules_def rules_path_def master_dir_def)

lemma get_master_modpack_dir_eq:
  "get_master_modpack_dir st fs = (master_dir st, with_rules st fs)"
  by (auto simp: get_master_modpack_dir_def create_bcml_graphicpack_if_needed_def exists_def
      master_dir_def Let_def with_rules_def)

lemma with_rules_idem: "fs (rules_path st) \<noteq> None \<Longrightarrow> with_rules st fs = fs"
  by (auto simp: with_rules_eq)

lemma with_rules_has: "with_rules st fs (rules_path st) \<noteq> None"
  by (simp add: with_rules_eq)

text \<open>\<open>merge_map\<close> returns when the stock map is found, and the two files it writes hold
  the merged object list of \<open>merge_objs\<close>: whole under \<open>aoc/0010\<close>, without the DLC's
  objects under \<open>content\<close>.\<close>

lemma merge_map_writes:
  assumes "get_stock_map st fs L map_unit False = Inr stock"
  shows "\<exists>result fs'. merge_map st fs L (map_unit, changes) no_del link_del = Inr (result, fs')
     \<and> fs' (join (join (aoc_tree st) (Map_section map_unit))
               (Map_section map_unit @ ''_'' @ Map_type map_unit @ ''.smubin''))
         = Some (compress L (get_bytes L
                  (stock\<lparr>Objs := merge_objs (Objs stock) changes no_del\<rparr>) (wiiu st)))
     \<and> fs' (join (join (content_tree st) (Map_section map_unit))
               (Map_section map_unit @ ''_'' @ Map_type map_unit @ ''.smubin''))
         = Some (compress L (get_bytes L
                  (stock\<lparr>Objs := filter (\<lambda>obj. \<not> startswith (UnitConfigName obj) ''DLC'')
                                    (merge_objs (Objs stock) changes no_del)\<rparr>) (wiiu st)))"
  using assms
  by (simp add: merge_map_def Let_def get_master_modpack_dir_eq with_rules_eq aoc_tree_def
      content_tree_def rules_path_def join_def)

text \<open>The file system after the steps that come before the diffs are loaded.\<close>

lemma reset_outputs_eq:
  "reset_outputs st fs =
     (\<lambda>p. if p = log_path st then None
          else if startswith p (content_tree st @ ''/'') \<or> startswith p (aoc_tree st @ ''/'') then None
          else if p = aoc_pack_path st then Some []
          else if p = rules_path st then (case fs p of None \<Rightarrow> Some rules_txt | Some t \<Rightarrow> Some t)
          else fs p)"
proof -
  let ?fs0 = "with_rules st fs"
  let ?fs1 = "?fs0(aoc_pack_path st \<mapsto> [])"
  let ?fs2 = "rmtree ?fs1 (aoc_tree st)"
  let ?fs3 = "rmtree ?fs2 (content_tree st)"
  have m: "\<And>g. get_master_modpack_dir st g = (master_dir st, with_rules st g)"
    by (rule get_master_modpack_dir_eq)
  have one: "(if \<not> exists ?fs0 (aoc_pack_path st) \<or> length (the (?fs0 (aoc_pack_path st))) > 0
              then ?fs0(aoc_pack_path st \<mapsto> []) else ?fs0) = ?fs1"
    by (auto simp: exists_def fun_eq_iff)
  have r1: "?fs1 (rules_path st) \<noteq> None"
    using with_rules_has[of st fs] master_paths(5)[of st] by simp
  have r2: "?fs2 (rules_path st) \<noteq> None"
    using r1 master_paths(3)[of st] by (simp add: rmtree_def)
  have r3: "?fs3 (rules_path st) \<noteq> None"
    using r2 master_paths(4)[of st] by (simp add: rmtree_def)
  have "reset_outputs st fs =
          (if exists ?fs3 (log_path st) then unlink ?fs3 (log_path st) else ?fs3)"
    unfolding reset_outputs_def Let_def m fst_conv snd_conv
      aoc_pack_path_def[symmetric] aoc_tree_def[symmetric] content_tree_def[symmetric]
      log_path_def[symmetric] one
      with_rules_idem[of ?fs1 st, OF r1] with_rules_idem[of ?fs2 st, OF r2]
      with_rules_idem[of ?fs3 st, OF r3]
    by (rule refl)
  also have "\<dots> = (\<lambda>p. if p = log_path st then None else ?fs3 p)"
    by (auto simp: exists_def unlink_def fun_eq_iff)
  also have "\<dots> = (\<lambda>p. if p = log_path st then None
          else if startswith p (content_tree st @ ''/'') \<or> startswith p (aoc_tree st @ ''/'') then None
          else if p = aoc_pack_path st then Some []
          else if p = rules_path st then (case fs p of None \<Rightarrow> Some rules_txt | Some t \<Rightarrow> Some t)
          else fs p)"
    by (auto simp: rmtree_def with_rules_eq fun_eq_iff split: option.splits)
  finally show ?thesis .
qed

lemma consolidate_diffs_Nil: "consolidate_diffs [] = Inr []"
  by (simp add: consolidate_diffs_def)

text \<open>
  C7 (amended). When the consolidated diffs are empty, \<open>perform_merge\<close> returns right after
  its first steps, which have emptied the master pack: no file is left below the two merged
  \<open>MainField\<close> trees and there is no \<open>logs/map.log\<close>. The only files it may have
  written are the empty \<open>AocMainField.pack\<close> and, when missing, the master pack's
  \<open>rules.txt\<close>; every other file is as it was.
\<close>

theorem perform_merge_no_diffs:
  assumes "consolidate_diffs all_diffs = Inr []"
  shows "\<exists>fs'. perform_merge st fs L no_del link_del all_diffs = Inr fs'
     \<and> fs' (log_path st) = None
     \<and> fs' (aoc_pack_path st) = Some []
     \<and> fs' (rules_path st) = (case fs (rules_path st) of None \<Rightarrow> Some rules_txt | Some t \<Rightarrow> Some t)
     \<and> (\<forall>p. startswith p (aoc_tree st @ ''/'') \<or> startswith p (content_tree st @ ''/'')
            \<longrightarrow> fs' p = None)
     \<and> (\<forall>p. p \<noteq> log_path st \<and> p \<noteq> aoc_pack_path st \<and> p \<noteq> rules_path st
            \<and> \<not> startswith p (aoc_tree st @ ''/'') \<and> \<not> startswith p (content_tree st @ ''/'')
            \<longrightarrow> fs' p = fs p)"
proof -
  have p: "perform_merge st fs L no_del link_del all_diffs = Inr (reset_outputs st fs)"
    using assms by (simp add: perform_merge_def)
  have a: "reset_outputs st fs (log_path st) = None"
    by (simp add: reset_outputs_eq)
  have b: "reset_outputs st fs (aoc_pack_path st) = Some []"
    using master_paths[of st] by (simp add: reset_outputs_eq)
  have c: "reset_outputs st fs (rules_path st)
             = (case fs (rules_path st) of None \<Rightarrow> Some rules_txt | Some t \<Rightarrow> Some t)"
    using master_paths[of st] by (simp add: reset_outputs_eq)
  have d: "\<forall>p. startswith p (aoc_tree st @ ''/'') \<or> startswith p (content_tree st @ ''/'')
            \<longrightarrow> reset_outputs st fs p = None"
    by (simp add: reset_outputs_eq)
  have e: "\<forall>p. p \<noteq> log_path st \<and> p \<noteq> aoc_pack_path st \<and> p \<noteq> rules_path st
            \<and> \<not> startswith p (aoc_tree st @ ''/'') \<and> \<not> startswith p (content_tree st @ ''/'')
            \<longrightarrow> reset_outputs st fs p = fs p"
    by (simp add: reset_outputs_eq)
  from p a b c d e show ?thesis by blast
qed

theorem perform_merge_no_diffs_witness:
  "consolidate_diffs ([] :: (string \<times> string diff) list list) = Inr []
   \<and> \<not> isl (perform_merge ex_settings Map.empty ex_lib False False [])
   \<and> projr (perform_merge ex_settings Map.empty ex_lib False False []) (log_path ex_settings) = None
   \<and> projr (perform_merge ex_settings Map.empty ex_lib False False [])
        (aoc_tree ex_settings @ ''/A-1/A-1_Dynamic.smubin'') = None
   \<and> projr (perform_merge ex_settings Map.empty ex_lib False False [])
        (content_tree ex_settings @ ''/A-1/A-1_Dynamic.smubin'') = None"
proof -
  have c: "consolidate_diffs ([] :: (string \<times> string diff) list list) = Inr []"
    by (rule consolidate_diffs_Nil)
  from perform_merge_no_diffs[OF c, of ex_settings Map.empty ex_lib False False]
  obtain fs' where r: "perform_merge ex_settings Map.empty ex_lib False False [] = Inr fs'"
    and l: "fs' (log_path ex_settings) = None"
    and t: "\<forall>p. startswith p (aoc_tree ex_settings @ ''/'') \<or> startswith p (content_tree ex_settings @ ''/'')
            \<longrightarrow> fs' p = None"
    by blast
  have "startswith (aoc_tree ex_settings @ ''/A-1/A-1_Dynamic.smubin'') (aoc_tree ex_settings @ ''/'')"
    "startswith (content_tree ex_settings @ ''/A-1/A-1_Dynamic.smubin'') (content_tree ex_settings @ ''/'')"
    by (simp_all add: startswith_append_same)
  with t have "fs' (aoc_tree ex_settings @ ''/A-1/A-1_Dynamic.smubin'') = None"
    "fs' (content_tree ex_settings @ ''/A-1/A-1_Dynamic.smubin'') = None"
    by blast+
  with c r l show ?thesis by simp
qed

text \<open>The claim as written fails: with no mod at all and an empty master pack,
  \<open>perform_merge\<close> writes two files, the empty \<open>AocMainField.pack\<close> and \<open>rules.txt\<close>,
  and leaves no size-table log.\<close>

theorem perform_merge_no_diffs_counterexample:
  "\<not> isl (perform_merge ex_settings Map.empty ex_lib False False [])
   \<and> projr (perform_merge ex_settings Map.empty ex_lib False False [])
        ''data/mods/9999_BCML/aoc/0010/Pack/AocMainField.pack'' = Some []
   \<and> projr (perform_merge ex_settings Map.empty ex_lib False False [])
        ''data/mods/9999_BCML/rules.txt'' = Some rules_txt
   \<and> projr (perform_merge ex_settings Map.empty ex_lib False False [])
        ''data/mods/9999_BCML/logs/map.log'' = None"
proof -
  have p: "perform_merge ex_settings Map.empty ex_lib False False []
             = Inr (reset_outputs ex_settings Map.empty)"
    by (simp add: perform_merge_def consolidate_diffs_Nil)
  have paths: "aoc_pack_path ex_settings = ''data/mods/9999_BCML/aoc/0010/Pack/AocMainField.pack''"
    "rules_path ex_settings = ''data/mods/9999_BCML/rules.txt''"
    "log_path ex_settings = ''data/mods/9999_BCML/logs/map.log''"
    by (simp_all add: aoc_pack_path_def rules_path_def log_path_def master_dir_def
        get_modpack_dir_def join_def ex_settings_def)
  have a: "reset_outputs ex_settings Map.empty (aoc_pack_path ex_settings) = Some []"
    using master_paths[of ex_settings] by (simp add: reset_outputs_eq)
  have b: "reset_outputs ex_settings Map.empty (rules_path ex_settings) = Some rules_txt"
    using master_paths[of ex_settings] by (simp add: reset_outputs_eq)
  have c: "reset_outputs ex_settings Map.empty (log_path ex_settings) = None"
    by (simp add: reset_outputs_eq)
  from a b c show ?thesis unfolding p paths by simp
qed

text \<open>With two or more CPUs and at least one map to merge, the number of workers is
  \<open>max(1, min(cpu_count - 1, number of maps))\<close> and the pool can be made.\<close>

lemma num_threads_two_cpus:
  assumes "2 \<le> cpu_count L" and "map_diffs \<noteq> []"
  shows "num_threads L map_diffs = max 1 (min (cpu_count L - 1) (int (length map_diffs)))
       \<and> Pool (num_threads L map_diffs) = Inr (num_threads L map_diffs)"
proof -
  have "1 \<le> int (length map_diffs)" using assms(2) by (cases map_diffs) simp_all
  with assms(1) show ?thesis by (simp add: num_threads_def Pool_def)
qed

text \<open>
  C8. On a machine with one CPU and one map to merge, \<open>num_threads\<close> is
  \<open>min(1 - 1, 1) = 0\<close>, where the claim has \<open>max(1, 0) = 1\<close> worker;
  \<open>Pool(processes=0)\<close> raises \<open>ValueError\<close> and nothing is merged.
\<close>

theorem perform_merge_one_cpu:
  "cpu_count (ex_lib\<lparr>cpu_count := 1\<rparr>) = 1
   \<and> consolidate_diffs [[(''A-1_Dynamic'', \<lparr>add = [obj_3c], mod_entries = [], del = []\<rparr>)]]
       = Inr [((''A-1'', ''Dynamic''), \<lparr>add = [obj_3c], mod_entries = [], del = []\<rparr>)]
   \<and> num_threads (ex_lib\<lparr>cpu_count := 1\<rparr>)
        [((''A-1'', ''Dynamic''), \<lparr>add = [obj_3c], mod_entries = [], del = []\<rparr>)] = 0
   \<and> max 1 (min (cpu_count (ex_lib\<lparr>cpu_count := 1\<rparr>) - 1) (1::int)) = 1
   \<and> perform_merge ex_settings ex_files (ex_lib\<lparr>cpu_count := 1\<rparr>) False False
        [[(''A-1_Dynamic'', \<lparr>add = [obj_3c], mod_entries = [], del = []\<rparr>)]]
       = Inl ValueError"
proof -
  have c: "consolidate_diffs [[(''A-1_Dynamic'', \<lparr>add = [obj_3c], mod_entries = [], del = []\<rparr>)]]
       = Inr [((''A-1'', ''Dynamic''), \<lparr>add = [obj_3c], mod_entries = [], del = []\<rparr>)]"
    by (simp add: consolidate_diffs_def group_file_def make_Map_def Map_in_def Map_eq_dict_def
        dict_get_def consolidate_group_def consolidate_del_def)
  have n: "num_threads (ex_lib\<lparr>cpu_count := 1\<rparr>)
        [((''A-1'', ''Dynamic''), \<lparr>add = [obj_3c], mod_entries = [], del = []\<rparr>)] = 0"
    by (simp add: num_threads_def)
  have p: "perform_merge ex_settings ex_files (ex_lib\<lparr>cpu_count := 1\<rparr>) False False
        [[(''A-1_Dynamic'', \<lparr>add = [obj_3c], mod_entries = [], del = []\<rparr>)]]
       = Inl ValueError"
    unfolding perform_merge_def Let_def c by (simp add: n Pool_def)
  from c n p show ?thesis by simp
qed

end
